theory Spec2Isabelle
  imports Complex_Main "HOL-Library.Multiset" "HOL-Library.List_Lexorder" "HOL-Library.Char_ord"
begin

section \<open>Python values, exceptions and the imager object\<close>

text \<open>
  The exceptions that \<^verbatim>\<open>imager.py\<close> can raise. The module never defines or imports a
  name \<^verbatim>\<open>ArgumentError\<close>, so evaluating \<^verbatim>\<open>raise ArgumentError(...)\<close> raises
  \<^verbatim>\<open>NameError\<close>. \<open>ExternalError\<close> stands for a failure inside a collaborator
  (solver, fold generator, error evaluator, unpickling).
\<close>

datatype error =
    NameError | TypeError | ValueError | RuntimeError | AssertionError | AttributeError
  | OSError | IOError | ShutilError | ZeroDivisionError | ExternalError

text \<open>
  Objects that can be assigned to the three storage properties. \<open>OtherObject\<close> is any
  object whose \<^verbatim>\<open>type()\<close> is none of the three storage classes (instances of
  subclasses included, since the setters compare \<^verbatim>\<open>type(value) ==\<close>).
\<close>

datatype ('v, 'i, 'u) pyval =
    PyNone
  | GriddedVisibilityStorage 'v
  | ResultingImageStorage 'i
  | UVGridConfig 'u
  | OtherObject string

text \<open>\<^verbatim>\<open>paramcontainer.MfistaParamContainer(l1, ltsv, maxiter, eps, clean_box)\<close>.\<close>

record mfistaparam =
  mp_l1 :: real
  mp_ltsv :: real
  mp_maxiter :: int
  mp_eps :: real
  mp_clean_box :: "real list option"

text \<open>One call of \<^verbatim>\<open>self.solver.solve\<close>: the parameters set on the solver, the visibility
  it is given, and the two initial-image flags.\<close>

type_synonym ('v, 'i, 'u) solver_call = "mfistaparam \<times> ('v, 'i, 'u) pyval \<times> bool \<times> bool"

text \<open>Files: a pickled object, a text file (its lines), nothing else.\<close>

datatype ('v, 'i, 'u) fcontent = Pickled "('v, 'i, 'u) pyval" | Text "string list"

text \<open>
  The state of a \<^verbatim>\<open>SparseModelingImager\<close> together with the part of the world it acts
  on. A slot holding \<open>None\<close> is an attribute that was never set (the getters use
  \<^verbatim>\<open>getattr(self, name, None)\<close>); \<open>visset = None\<close> covers both a missing attribute and
  the value \<^verbatim>\<open>None\<close>. \<open>solver_log\<close> lists the solver invocations so far, oldest first.
\<close>

record ('v, 'i, 'u, 'g) imager =
  griddedvis_slot :: "('v, 'i, 'u) pyval option"
  imagearray_slot :: "('v, 'i, 'u) pyval option"
  uvgridconfig_slot :: "('v, 'i, 'u) pyval option"
  mfistaparam_attr :: "mfistaparam option"
  visset :: "'g option"
  solver_log :: "('v, 'i, 'u) solver_call list"
  files :: "string \<rightharpoonup> ('v, 'i, 'u) fcontent"

text \<open>
  The collaborators that live outside \<^verbatim>\<open>imager.py\<close> (modules \<^verbatim>\<open>mfista\<close>, \<^verbatim>\<open>cv\<close>, the
  string conversion of a float, and the value that \<^verbatim>\<open>math.log10\<close> computes for a positive
  float, which is the decimal logarithm up to rounding), taken as parameters. The solver
  keeps an initial image between calls, so its result may depend on the calls made
  before.
\<close>

record ('v, 'i, 'u, 'g) ext =
  solve :: "('v, 'i, 'u) solver_call list \<Rightarrow> mfistaparam \<Rightarrow> ('v, 'i, 'u) pyval
              \<Rightarrow> bool \<Rightarrow> bool \<Rightarrow> error + 'i"
  new_visset :: "('v, 'i, 'u) pyval \<Rightarrow> int \<Rightarrow> error + 'g"
  num_fold_of :: "'g \<Rightarrow> int"
  generate_subset :: "'g \<Rightarrow> ('v, 'i, 'u) pyval \<Rightarrow> nat
              \<Rightarrow> error + (('v, 'i, 'u) pyval \<times> ('v, 'i, 'u) pyval)"
  get_mean_mse :: "(('v, 'i, 'u) pyval \<times> 'i) list \<Rightarrow> error + real"
  repr_float :: "real \<Rightarrow> string"
  float_log10 :: "real \<Rightarrow> real"

section \<open>The storage properties\<close>

definition get_griddedvis :: "('v, 'i, 'u, 'g) imager \<Rightarrow> ('v, 'i, 'u) pyval" where
  "get_griddedvis s = (case griddedvis_slot s of None \<Rightarrow> PyNone | Some v \<Rightarrow> v)"

definition set_griddedvis ::
  "('v, 'i, 'u) pyval \<Rightarrow> ('v, 'i, 'u, 'g) imager \<Rightarrow> (error + unit) \<times> ('v, 'i, 'u, 'g) imager" where
  "set_griddedvis val s =
     (case val of
        PyNone \<Rightarrow> (Inr (), s\<lparr>griddedvis_slot := Some PyNone\<rparr>)
      | GriddedVisibilityStorage x \<Rightarrow> (Inr (), s\<lparr>griddedvis_slot := Some val\<rparr>)
      | _ \<Rightarrow> (Inl TypeError, s))"

definition get_imagearray :: "('v, 'i, 'u, 'g) imager \<Rightarrow> ('v, 'i, 'u) pyval" where
  "get_imagearray s = (case imagearray_slot s of None \<Rightarrow> PyNone | Some v \<Rightarrow> v)"

definition set_imagearray ::
  "('v, 'i, 'u) pyval \<Rightarrow> ('v, 'i, 'u, 'g) imager \<Rightarrow> (error + unit) \<times> ('v, 'i, 'u, 'g) imager" where
  "set_imagearray val s =
     (case val of
        PyNone \<Rightarrow> (Inr (), s\<lparr>imagearray_slot := Some PyNone\<rparr>)
      | ResultingImageStorage x \<Rightarrow> (Inr (), s\<lparr>imagearray_slot := Some val\<rparr>)
      | _ \<Rightarrow> (Inl TypeError, s))"

definition get_uvgridconfig :: "('v, 'i, 'u, 'g) imager \<Rightarrow> ('v, 'i, 'u) pyval" where
  "get_uvgridconfig s = (case uvgridconfig_slot s of None \<Rightarrow> PyNone | Some v \<Rightarrow> v)"

definition set_uvgridconfig ::
  "('v, 'i, 'u) pyval \<Rightarrow> ('v, 'i, 'u, 'g) imager \<Rightarrow> (error + unit) \<times> ('v, 'i, 'u, 'g) imager" where
  "set_uvgridconfig val s =
     (case val of
        PyNone \<Rightarrow> (Inr (), s\<lparr>uvgridconfig_slot := Some PyNone\<rparr>)
      | UVGridConfig x \<Rightarrow> (Inr (), s\<lparr>uvgridconfig_slot := Some val\<rparr>)
      | _ \<Rightarrow> (Inl TypeError, s))"

definition imagesuffix :: string where
  "imagesuffix = ''pickle''"

section \<open>Solver runs and image files\<close>

text \<open>\<^verbatim>\<open>_mfista\<close>: the assertion, then one logged solver invocation.\<close>

definition priv_mfista ::
  "('v, 'i, 'u, 'g) ext \<Rightarrow> mfistaparam \<Rightarrow> ('v, 'i, 'u) pyval \<Rightarrow> bool \<Rightarrow> bool
     \<Rightarrow> ('v, 'i, 'u, 'g) imager \<Rightarrow> (error + 'i) \<times> ('v, 'i, 'u, 'g) imager" where
  "priv_mfista x param vis storeinitialimage overwriteinitialimage s =
     (if vis = PyNone then (Inl AssertionError, s)
      else
        let s1 = s\<lparr>solver_log :=
                     solver_log s @ [(param, vis, storeinitialimage, overwriteinitialimage)]\<rparr>
        in case solve x (solver_log s) param vis storeinitialimage overwriteinitialimage of
             Inl e \<Rightarrow> (Inl e, s1)
           | Inr arr \<Rightarrow> (Inr arr, s1))"

definition mfista ::
  "('v, 'i, 'u, 'g) ext \<Rightarrow> real \<Rightarrow> real \<Rightarrow> int \<Rightarrow> real \<Rightarrow> real list option \<Rightarrow> bool \<Rightarrow> bool
     \<Rightarrow> ('v, 'i, 'u, 'g) imager \<Rightarrow> (error + unit) \<times> ('v, 'i, 'u, 'g) imager" where
  "mfista x l1 ltsv maxiter eps clean_box storeinitialimage overwriteinitialimage s =
     (let param = \<lparr>mp_l1 = l1, mp_ltsv = ltsv, mp_maxiter = maxiter, mp_eps = eps,
                   mp_clean_box = clean_box\<rparr>;
          s1 = s\<lparr>mfistaparam_attr := Some param\<rparr>
      in case priv_mfista x param (get_griddedvis s1) storeinitialimage overwriteinitialimage s1 of
           (Inl e, s2) \<Rightarrow> (Inl e, s2)
         | (Inr arr, s2) \<Rightarrow> set_imagearray (ResultingImageStorage arr) s2)"

definition exportimage ::
  "string \<Rightarrow> bool \<Rightarrow> ('v, 'i, 'u, 'g) imager \<Rightarrow> (error + unit) \<times> ('v, 'i, 'u, 'g) imager" where
  "exportimage imagename overwrite s =
     (if get_imagearray s = PyNone then (Inl RuntimeError, s)
      else if files s imagename \<noteq> None \<and> \<not> overwrite then (Inl RuntimeError, s)
      else (Inr (), s\<lparr>files := (files s)(imagename \<mapsto> Pickled (get_imagearray s))\<rparr>))"

definition getimage :: "string \<Rightarrow> ('v, 'i, 'u, 'g) imager \<Rightarrow> error + ('v, 'i, 'u) pyval" where
  "getimage imagename s =
     (case files s imagename of
        None \<Rightarrow> Inl RuntimeError
      | Some (Pickled v) \<Rightarrow> Inr v
      | Some (Text ls) \<Rightarrow> Inl ExternalError)"

section \<open>The cross-validation session\<close>

definition initializecv ::
  "('v, 'i, 'u, 'g) ext \<Rightarrow> int \<Rightarrow> ('v, 'i, 'u, 'g) imager
     \<Rightarrow> (error + unit) \<times> ('v, 'i, 'u, 'g) imager" where
  "initializecv x num_fold s =
     (if get_griddedvis s = PyNone then (Inl AssertionError, s)
      else case visset s of
             None \<Rightarrow> (case new_visset x (get_griddedvis s) num_fold of
                        Inl e \<Rightarrow> (Inl e, s)
                      | Inr g \<Rightarrow> (Inr (), s\<lparr>visset := Some g\<rparr>))
           | Some g \<Rightarrow> (Inr (), s))"

definition finalizecv :: "('v, 'i, 'u, 'g) imager \<Rightarrow> ('v, 'i, 'u, 'g) imager" where
  "finalizecv s = s\<lparr>visset := None\<rparr>"

text \<open>The loop over the folds of \<^verbatim>\<open>computegridmse\<close>; \<open>acc\<close> is what the evaluator has
  accumulated (held-out cache and reconstructed image of each fold).\<close>

fun fold_loop ::
  "('v, 'i, 'u, 'g) ext \<Rightarrow> mfistaparam \<Rightarrow> 'g \<Rightarrow> nat list \<Rightarrow> (('v, 'i, 'u) pyval \<times> 'i) list
     \<Rightarrow> ('v, 'i, 'u, 'g) imager
     \<Rightarrow> (error + (('v, 'i, 'u) pyval \<times> 'i) list) \<times> ('v, 'i, 'u, 'g) imager" where
  "fold_loop x param g [] acc s = (Inr acc, s)"
| "fold_loop x param g (i # is) acc s =
     (case generate_subset x g (get_uvgridconfig s) i of
        Inl e \<Rightarrow> (Inl e, s)
      | Inr (visibility_active, visibility_cache) \<Rightarrow>
          (case priv_mfista x param visibility_active False False s of
             (Inl e, s1) \<Rightarrow> (Inl e, s1)
           | (Inr imagearray, s1) \<Rightarrow>
               fold_loop x param g is (acc @ [(visibility_cache, imagearray)]) s1))"

definition computegridmse ::
  "('v, 'i, 'u, 'g) ext \<Rightarrow> real \<Rightarrow> real \<Rightarrow> int \<Rightarrow> real \<Rightarrow> real list option
     \<Rightarrow> ('v, 'i, 'u, 'g) imager \<Rightarrow> (error + real) \<times> ('v, 'i, 'u, 'g) imager" where
  "computegridmse x l1 ltsv maxiter eps clean_box s =
     (let param = \<lparr>mp_l1 = l1, mp_ltsv = ltsv, mp_maxiter = maxiter, mp_eps = eps,
                   mp_clean_box = clean_box\<rparr>
      in if get_griddedvis s = PyNone then (Inl AssertionError, s)
         else case visset s of
                None \<Rightarrow> (Inl AttributeError, s)
              | Some g \<Rightarrow>
                  let num_fold = num_fold_of x g
                  in if num_fold \<le> 1 then (Inr (- 1), s)
                     else case fold_loop x param g [0..<nat num_fold] [] s of
                            (Inl e, s1) \<Rightarrow> (Inl e, s1)
                          | (Inr acc, s1) \<Rightarrow>
                              (case get_mean_mse x acc of
                                 Inl e \<Rightarrow> (Inl e, s1)
                               | Inr mean_mse \<Rightarrow> (Inr mean_mse, s1)))"

section \<open>Candidate arrays, formatting and selection\<close>

text \<open>
  An element of a candidate list: a number, a string, or \<open>Obj\<close> (\<^verbatim>\<open>None\<close> or any other
  object). Floats are taken as real numbers: there is no rounding and no NaN. \<^verbatim>\<open>numpy.asarray\<close> gives a float array for numbers only, a string array when
  strings and numbers are mixed (the numbers converted to text), and an array of dtype
  \<^verbatim>\<open>object\<close> as soon as one element is an \<open>Obj\<close>.
\<close>

datatype elem = Num real | Str string | Obj

datatype nparray = FloatArr "real list" | StrArr "string list" | ObjArr

datatype nval = F real | S string

fun promote :: "(real \<Rightarrow> string) \<Rightarrow> elem \<Rightarrow> nparray \<Rightarrow> nparray" where
  "promote r (Num v) (FloatArr vs) = FloatArr (v # vs)"
| "promote r (Num v) (StrArr ss) = StrArr (r v # ss)"
| "promote r (Str t) (FloatArr vs) = StrArr (t # map r vs)"
| "promote r (Str t) (StrArr ss) = StrArr (t # ss)"
| "promote r Obj a = ObjArr"
| "promote r e ObjArr = ObjArr"

fun numpy_asarray :: "(real \<Rightarrow> string) \<Rightarrow> elem list \<Rightarrow> nparray" where
  "numpy_asarray r [] = FloatArr []"
| "numpy_asarray r (e # es) = promote r e (numpy_asarray r es)"

fun dtype_is_object :: "nparray \<Rightarrow> bool" where
  "dtype_is_object ObjArr = True"
| "dtype_is_object a = False"

fun len :: "nparray \<Rightarrow> nat" where
  "len (FloatArr vs) = length vs"
| "len (StrArr ss) = length ss"
| "len ObjArr = 0"

text \<open>\<^verbatim>\<open>numpy.argsort\<close>: the indices that put the values in ascending order.\<close>

definition numpy_argsort :: "'a::linorder list \<Rightarrow> nat list" where
  "numpy_argsort vs = sort_key (\<lambda>k. vs ! k) [0..<length vs]"

text \<open>\<^verbatim>\<open>a[numpy.argsort(a)]\<close>. An object array is rejected before this point.\<close>

fun sorted_list :: "nparray \<Rightarrow> nval list" where
  "sorted_list (FloatArr vs) = map (\<lambda>k. F (vs ! k)) (numpy_argsort vs)"
| "sorted_list (StrArr ss) = map (\<lambda>k. S (ss ! k)) (numpy_argsort ss)"
| "sorted_list ObjArr = []"

text \<open>\<^verbatim>\<open>int(y)\<close> of a float truncates toward zero.\<close>

definition py_int :: "real \<Rightarrow> int" where
  "py_int y = (if 0 \<le> y then \<lfloor>y\<rfloor> else \<lceil>y\<rceil>)"

text \<open>\<^verbatim>\<open>math.log10\<close>: a domain error at and below zero, a type error on a string, and
  otherwise the value \<open>lg\<close> that the library computes.\<close>

fun math_log10 :: "(real \<Rightarrow> real) \<Rightarrow> nval \<Rightarrow> error + real" where
  "math_log10 lg (F v) = (if v \<le> 0 then Inl ValueError else Inr (lg v))"
| "math_log10 lg (S t) = Inl TypeError"

text \<open>Decimal text of an integer, as \<^verbatim>\<open>'{0}'.format\<close> prints it.\<close>

fun show_nat :: "nat \<Rightarrow> string" where
  "show_nat n =
     (if n < 10 then [''0123456789'' ! n]
      else show_nat (n div 10) @ [''0123456789'' ! (n mod 10)])"

definition show_int :: "int \<Rightarrow> string" where
  "show_int k = (if k < 0 then CHR ''-'' # show_nat (nat (- k)) else show_nat (nat k))"

definition image_name :: "int \<Rightarrow> int \<Rightarrow> string" where
  "image_name a b = ''L1_'' @ show_int a @ ''_Ltsv_'' @ show_int b @ ''.'' @ imagesuffix"

definition data_line :: "(real \<Rightarrow> string) \<Rightarrow> real \<Rightarrow> real \<Rightarrow> real \<Rightarrow> string" where
  "data_line r L1 Ltsv mse = r L1 @ '', '' @ r Ltsv @ '', '' @ r mse"

text \<open>\<^verbatim>\<open>print(line, file=f)\<close>; \<open>f = None\<close> is the handle on \<^verbatim>\<open>os.devnull\<close>.\<close>

definition print_to ::
  "string option \<Rightarrow> string \<Rightarrow> ('v, 'i, 'u, 'g) imager \<Rightarrow> ('v, 'i, 'u, 'g) imager" where
  "print_to f line s =
     (case f of
        None \<Rightarrow> s
      | Some p \<Rightarrow>
          s\<lparr>files := (files s)(p \<mapsto>
               Text (case files s p of Some (Text ls) \<Rightarrow> ls @ [line] | _ \<Rightarrow> [line]))\<rparr>)"

text \<open>\<^verbatim>\<open>open(name, 'w')\<close> creates or empties the file.\<close>

definition open_w ::
  "string option \<Rightarrow> ('v, 'i, 'u, 'g) imager \<Rightarrow> ('v, 'i, 'u, 'g) imager" where
  "open_w f s = (case f of None \<Rightarrow> s | Some p \<Rightarrow> s\<lparr>files := (files s)(p \<mapsto> Text [])\<rparr>)"

text \<open>\<^verbatim>\<open>numpy.argmin\<close> of a list: the first index of the smallest value.\<close>

fun argmin_loop :: "real list \<Rightarrow> nat \<Rightarrow> nat \<Rightarrow> real \<Rightarrow> nat" where
  "argmin_loop [] k best bv = best"
| "argmin_loop (v # vs) k best bv =
     (if v < bv then argmin_loop vs (Suc k) k v else argmin_loop vs (Suc k) best bv)"

definition numpy_argmin :: "real list \<Rightarrow> error + nat" where
  "numpy_argmin vs = (case vs of [] \<Rightarrow> Inl ValueError | v # rest \<Rightarrow> Inr (argmin_loop rest 1 0 v))"

text \<open>\<^verbatim>\<open>shutil.copy2(src, dst)\<close> and \<^verbatim>\<open>os.remove(path)\<close> on the file store. The store has
  one name per file: two paths are the same file exactly when they are the same string.\<close>

definition shutil_copy2 ::
  "string \<Rightarrow> string \<Rightarrow> ('v, 'i, 'u, 'g) imager \<Rightarrow> (error + unit) \<times> ('v, 'i, 'u, 'g) imager" where
  "shutil_copy2 src dst s =
     (case files s src of
        None \<Rightarrow> (Inl IOError, s)
      | Some c \<Rightarrow> if src = dst then (Inl ShutilError, s)
                  else (Inr (), s\<lparr>files := (files s)(dst \<mapsto> c)\<rparr>))"

definition os_remove ::
  "string \<Rightarrow> ('v, 'i, 'u, 'g) imager \<Rightarrow> (error + unit) \<times> ('v, 'i, 'u, 'g) imager" where
  "os_remove path s =
     (case files s path of
        None \<Rightarrow> (Inl OSError, s)
      | Some c \<Rightarrow> (Inr (), s\<lparr>files := (files s)(path := None)\<rparr>))"

text \<open>The loop \<^verbatim>\<open>for imagename in result_image: os.remove(imagename)\<close>.\<close>

fun remove_images ::
  "string list \<Rightarrow> ('v, 'i, 'u, 'g) imager \<Rightarrow> (error + unit) \<times> ('v, 'i, 'u, 'g) imager" where
  "remove_images [] s = (Inr (), s)"
| "remove_images (imagename # rest) s =
     (case os_remove imagename s of
        (Inl e, s1) \<Rightarrow> (Inl e, s1)
      | (Inr u, s1) \<Rightarrow> remove_images rest s1)"

section \<open>The parameter search\<close>

text \<open>One entry of the four result lists \<^verbatim>\<open>result_L1\<close>, \<^verbatim>\<open>result_Ltsv\<close>, \<^verbatim>\<open>result_mse\<close>,
  \<^verbatim>\<open>result_image\<close>, which grow together.\<close>

record trial =
  t_L1 :: real
  t_Ltsv :: real
  t_mse :: real
  t_image :: string

text \<open>The arguments that stay fixed during the sweep.\<close>

record sweep_args =
  a_summarize :: bool
  a_file :: "string option"
  a_maxiter :: int
  a_eps :: real
  a_clean_box :: "real list option"

text \<open>The body of the inner loop. Plotting has no effect on the state modelled here.\<close>

definition trial_body ::
  "('v, 'i, 'u, 'g) ext \<Rightarrow> sweep_args \<Rightarrow> nval \<Rightarrow> nval \<Rightarrow> ('v, 'i, 'u, 'g) imager
     \<Rightarrow> (error + trial) \<times> ('v, 'i, 'u, 'g) imager" where
  "trial_body x a L1 Ltsv s =
     (case math_log10 (float_log10 x) L1 of
        Inl e \<Rightarrow> (Inl e, s)
      | Inr lg1 \<Rightarrow>
     (case math_log10 (float_log10 x) Ltsv of
        Inl e \<Rightarrow> (Inl e, s)
      | Inr lg2 \<Rightarrow>
     (case (L1, Ltsv) of
        (F v1, F v2) \<Rightarrow>
          (let imagename = image_name (py_int lg1) (py_int lg2)
           in case mfista x v1 v2 (a_maxiter a) (a_eps a) (a_clean_box a) True True s of
                (Inl e, s1) \<Rightarrow> (Inl e, s1)
              | (Inr u1, s1) \<Rightarrow>
             (case exportimage imagename True s1 of
                (Inl e, s2) \<Rightarrow> (Inl e, s2)
              | (Inr u2, s2) \<Rightarrow>
             (case computegridmse x v1 v2 (a_maxiter a) (a_eps a) (a_clean_box a) s2 of
                (Inl e, s3) \<Rightarrow> (Inl e, s3)
              | (Inr mse, s3) \<Rightarrow>
                  (let s4 = print_to (a_file a) (data_line (repr_float x) v1 v2 mse) s3;
                       t = \<lparr>t_L1 = v1, t_Ltsv = v2, t_mse = mse, t_image = imagename\<rparr>
                   in if a_summarize a
                      then (case getimage imagename s4 of
                              Inl e \<Rightarrow> (Inl e, s4)
                            | Inr imagearray \<Rightarrow> (Inr t, s4))
                      else (Inr t, s4)))))
      | _ \<Rightarrow> (Inl TypeError, s))))"

text \<open>\<^verbatim>\<open>for i in xrange(num_L1 - 1, -1, -1)\<close>: the list of indices is \<open>rev [0..<num_L1]\<close>.\<close>

fun inner_loop ::
  "('v, 'i, 'u, 'g) ext \<Rightarrow> sweep_args \<Rightarrow> nval list \<Rightarrow> nval \<Rightarrow> nat list \<Rightarrow> trial list
     \<Rightarrow> ('v, 'i, 'u, 'g) imager \<Rightarrow> (error + trial list) \<times> ('v, 'i, 'u, 'g) imager" where
  "inner_loop x a sorted_l1_list Ltsv [] acc s = (Inr acc, s)"
| "inner_loop x a sorted_l1_list Ltsv (i # is) acc s =
     (case trial_body x a (sorted_l1_list ! i) Ltsv s of
        (Inl e, s1) \<Rightarrow> (Inl e, s1)
      | (Inr t, s1) \<Rightarrow> inner_loop x a sorted_l1_list Ltsv is (acc @ [t]) s1)"

text \<open>\<^verbatim>\<open>for j in xrange(num_Ltsv)\<close>: the list of indices is \<open>[0..<num_Ltsv]\<close>.\<close>

fun outer_loop ::
  "('v, 'i, 'u, 'g) ext \<Rightarrow> sweep_args \<Rightarrow> nval list \<Rightarrow> nval list \<Rightarrow> nat list \<Rightarrow> trial list
     \<Rightarrow> ('v, 'i, 'u, 'g) imager \<Rightarrow> (error + trial list) \<times> ('v, 'i, 'u, 'g) imager" where
  "outer_loop x a sorted_l1_list sorted_ltsv_list [] acc s = (Inr acc, s)"
| "outer_loop x a sorted_l1_list sorted_ltsv_list (j # js) acc s =
     (case inner_loop x a sorted_l1_list (sorted_ltsv_list ! j)
             (rev [0..<length sorted_l1_list]) acc s of
        (Inl e, s1) \<Rightarrow> (Inl e, s1)
      | (Inr acc1, s1) \<Rightarrow> outer_loop x a sorted_l1_list sorted_ltsv_list js acc1 s1)"

text \<open>
  \<^verbatim>\<open>cvforgridvis\<close> from its first line to \<^verbatim>\<open>f.close()\<close>: the checks, the sort, the
  plotter's constructor (\<^verbatim>\<open>CVPlotter.__init__\<close> divides by both counts), the data file,
  the session and the double loop. It returns the recorded trials.
\<close>

definition cv_sweep ::
  "('v, 'i, 'u, 'g) ext \<Rightarrow> elem list \<Rightarrow> elem list \<Rightarrow> int \<Rightarrow> string \<Rightarrow> bool \<Rightarrow> string option
     \<Rightarrow> int \<Rightarrow> real \<Rightarrow> real list option \<Rightarrow> ('v, 'i, 'u, 'g) imager
     \<Rightarrow> (error + trial list) \<times> ('v, 'i, 'u, 'g) imager" where
  "cv_sweep x l1_list ltsv_list num_fold imagepolicy summarize datafile maxiter eps clean_box s =
     (if imagepolicy \<noteq> ''best'' \<and> imagepolicy \<noteq> ''full'' then (Inl NameError, s)
      else
        let np_l1_list = numpy_asarray (repr_float x) l1_list;
            np_ltsv_list = numpy_asarray (repr_float x) ltsv_list
        in if dtype_is_object np_l1_list then (Inl NameError, s)
           else if dtype_is_object np_ltsv_list then (Inl NameError, s)
           else
             let num_L1 = len np_l1_list;
                 num_Ltsv = len np_ltsv_list;
                 sorted_l1_list = sorted_list np_l1_list;
                 sorted_ltsv_list = sorted_list np_ltsv_list
             in if summarize \<and> (num_Ltsv = 0 \<or> num_L1 = 0) then (Inl ZeroDivisionError, s)
                else
                  let f = (if datafile \<noteq> None then Some ''cvresult.dat'' else None);
                      s1 = print_to f ''# L1, Ltsv, MSE'' (open_w f s);
                      a = \<lparr>a_summarize = summarize, a_file = f, a_maxiter = maxiter,
                           a_eps = eps, a_clean_box = clean_box\<rparr>
                  in case initializecv x num_fold s1 of
                       (Inl e, s2) \<Rightarrow> (Inl e, s2)
                     | (Inr u, s2) \<Rightarrow>
                         (case outer_loop x a sorted_l1_list sorted_ltsv_list
                                 [0..<num_Ltsv] [] s2 of
                            (Inl e, s3) \<Rightarrow> (Inl e, s3)
                          | (Inr trials, s3) \<Rightarrow> (Inr trials, finalizecv s3)))"

text \<open>The values of the returned dictionary.\<close>

datatype dval = DFloat real | DStr string

text \<open>\<^verbatim>\<open>cvforgridvis\<close> after the sweep, up to and including \<^verbatim>\<open>shutil.copy2\<close>: the
  selection and the copy of the best image. It returns the index of the best trial.\<close>

definition cv_select_copy ::
  "string \<Rightarrow> trial list \<Rightarrow> ('v, 'i, 'u, 'g) imager
     \<Rightarrow> (error + nat) \<times> ('v, 'i, 'u, 'g) imager" where
  "cv_select_copy imageprefix trials s =
     (case numpy_argmin (map t_mse trials) of
        Inl e \<Rightarrow> (Inl e, s)
      | Inr best_solution \<Rightarrow>
          (case shutil_copy2 (t_image (trials ! best_solution))
                  (imageprefix @ ''.'' @ imagesuffix) s of
             (Inl e, s1) \<Rightarrow> (Inl e, s1)
           | (Inr u, s1) \<Rightarrow> (Inr best_solution, s1)))"

definition cvforgridvis ::
  "('v, 'i, 'u, 'g) ext \<Rightarrow> elem list \<Rightarrow> elem list \<Rightarrow> int \<Rightarrow> string \<Rightarrow> string \<Rightarrow> bool
     \<Rightarrow> string option \<Rightarrow> string option \<Rightarrow> int \<Rightarrow> real \<Rightarrow> real list option
     \<Rightarrow> ('v, 'i, 'u, 'g) imager \<Rightarrow> (error + (string \<rightharpoonup> dval)) \<times> ('v, 'i, 'u, 'g) imager" where
  "cvforgridvis x l1_list ltsv_list num_fold imageprefix imagepolicy summarize figfile datafile
       maxiter eps clean_box s =
     (case cv_sweep x l1_list ltsv_list num_fold imagepolicy summarize datafile
             maxiter eps clean_box s of
        (Inl e, s1) \<Rightarrow> (Inl e, s1)
      | (Inr trials, s1) \<Rightarrow>
     (case cv_select_copy imageprefix trials s1 of
        (Inl e, s2) \<Rightarrow> (Inl e, s2)
      | (Inr best_solution, s2) \<Rightarrow>
          (let best_L1 = t_L1 (trials ! best_solution);
               best_Ltsv = t_Ltsv (trials ! best_solution);
               result = [''L1'' \<mapsto> DFloat best_L1, ''Ltsv'' \<mapsto> DFloat best_Ltsv]
           in if imagepolicy = ''full'' then (Inr result, s2)
              else (case remove_images (map t_image trials) s2 of
                      (Inl e, s3) \<Rightarrow> (Inl e, s3)
                    | (Inr u, s3) \<Rightarrow> (Inr result, s3)))))"

section \<open>An example session\<close>

text \<open>
  Collaborators for the example runs: the solver returns the pair of weights it was
  given as its image, the fold generator is its fold count, the mean error of a trial
  is read from the table of the selection example, a float is printed in thousandths,
  and \<^verbatim>\<open>math.log10\<close> is the exact logarithm (the examples take it at powers of ten
  only).
\<close>

definition example_mse :: "real \<Rightarrow> real \<Rightarrow> real" where
  "example_mse l1 ltsv =
     (if l1 = 1/100 \<and> ltsv = 1/100 then 5/10
      else if l1 = 1/1000 \<and> ltsv = 1/100 then 3/10
      else if l1 = 1/100 \<and> ltsv = 1/10 then 9/10
      else 4/10)"

definition example_repr :: "real \<Rightarrow> string" where
  "example_repr v = show_int \<lfloor>v * 1000\<rfloor>"

definition example_ext :: "(unit, real \<times> real, unit, int) ext" where
  "example_ext =
     \<lparr>solve = (\<lambda>log param vis st ov. Inr (mp_l1 param, mp_ltsv param)),
      new_visset = (\<lambda>vis num_fold. Inr num_fold),
      num_fold_of = (\<lambda>g. g),
      generate_subset = (\<lambda>g uv k. Inr (OtherObject ''active'', OtherObject ''cache'')),
      get_mean_mse = (\<lambda>acc. case acc of
                               [] \<Rightarrow> Inl ExternalError
                             | (c, (l1, ltsv)) # rest \<Rightarrow> Inr (example_mse l1 ltsv)),
      repr_float = example_repr,
      float_log10 = (\<lambda>v. log 10 v)\<rparr>"

definition example_imager :: "(unit, real \<times> real, unit, int) imager" where
  "example_imager =
     \<lparr>griddedvis_slot = Some (GriddedVisibilityStorage ()),
      imagearray_slot = Some PyNone,
      uvgridconfig_slot = None,
      mfistaparam_attr = None,
      visset = None,
      solver_log = [],
      files = Map.empty\<rparr>"

section \<open>Notions used to state what a sweep leaves behind\<close>

text \<open>The line that a trial contributes to the data file.\<close>

definition trial_line :: "('v, 'i, 'u, 'g) ext \<Rightarrow> trial \<Rightarrow> string" where
  "trial_line x t = data_line (repr_float x) (t_L1 t) (t_Ltsv t) (t_mse t)"

text \<open>A recorded trial is well formed: both weights are positive and the image is
  named after the truncated decimal logarithms of the weights.\<close>

definition trial_ok :: "('v, 'i, 'u, 'g) ext \<Rightarrow> trial \<Rightarrow> bool" where
  "trial_ok x t \<longleftrightarrow>
     0 < t_L1 t \<and> 0 < t_Ltsv t
     \<and> t_image t = image_name (py_int (float_log10 x (t_L1 t)))
                                (py_int (float_log10 x (t_Ltsv t)))"

text \<open>
  How the files after a run of trials \<open>ts\<close> relate to the files before it, \<open>f\<close> being the
  data file handle: every trial's image file holds a pickled image, the data file has
  gained one line per trial, in order, and every other file is as before.
\<close>

definition sweep_files ::
  "('v, 'i, 'u, 'g) ext \<Rightarrow> string option \<Rightarrow> ('v, 'i, 'u, 'g) imager \<Rightarrow> trial list
     \<Rightarrow> ('v, 'i, 'u, 'g) imager \<Rightarrow> bool" where
  "sweep_files x f s ts s' \<longleftrightarrow>
     (\<forall>t \<in> set ts. Some (t_image t) \<noteq> f
        \<and> (\<exists>v. files s' (t_image t) = Some (Pickled (ResultingImageStorage v))))
     \<and> (\<forall>q. q \<notin> t_image ` set ts \<and> Some q \<noteq> f \<longrightarrow> files s' q = files s q)
     \<and> (\<forall>p ls. f = Some p \<and> files s p = Some (Text ls)
          \<longrightarrow> files s' p = Some (Text (ls @ map (trial_line x) ts)))"

text \<open>
  The solver invocations made on the full data, each as the pair \<open>(L1, Ltsv)\<close> it was
  run with, oldest first. \<^verbatim>\<open>mfista\<close> asks the solver to store its result as the next
  initial image; the invocations on the folds in \<^verbatim>\<open>computegridmse\<close> do not.
\<close>

definition full_data_calls :: "('v, 'i, 'u) solver_call list \<Rightarrow> (real \<times> real) list" where
  "full_data_calls calls =
     map (\<lambda>(param, vis, storeinitialimage, overwriteinitialimage). (mp_l1 param, mp_ltsv param))
       (filter (\<lambda>(param, vis, storeinitialimage, overwriteinitialimage). storeinitialimage)
          calls)"

section \<open>Arrays, sorting and selection\<close>

declare show_nat.simps [simp del]

lemma promote_ObjArr: "promote r e ObjArr = ObjArr"
  by (cases e) simp_all

lemma numpy_asarray_Num: "numpy_asarray r (map Num vs) = FloatArr vs"
  by (induction vs) simp_all

lemma numpy_asarray_Obj: "Obj \<in> set es \<Longrightarrow> numpy_asarray r es = ObjArr"
  by (induction es) (auto simp: promote_ObjArr)

lemma map_sort_key: "map f (sort_key f ks) = sort (map f ks)"
proof -
  have "mset (map f (sort_key f ks)) = mset (map f ks)" by simp
  moreover have "sorted (map f (sort_key f ks))" by (rule sorted_sort_key)
  ultimately show ?thesis by (metis properties_for_sort)
qed

lemma take_argsort: "map (\<lambda>k. vs ! k) (numpy_argsort vs) = sort vs"
  by (simp add: numpy_argsort_def map_sort_key map_nth)

lemma sorted_list_FloatArr: "sorted_list (FloatArr vs) = map F (sort vs)"
proof -
  have "map (\<lambda>k. F (vs ! k)) (numpy_argsort vs) = map F (map (\<lambda>k. vs ! k) (numpy_argsort vs))"
    by simp
  then show ?thesis by (simp only: sorted_list.simps take_argsort)
qed

lemma argmin_loop_props:
  assumes "best < k" "length pre = k" "pre ! best = bv"
    "\<forall>j<k. bv \<le> pre ! j" "\<forall>j<best. bv < pre ! j"
  shows "let r = argmin_loop vs k best bv; all = pre @ vs in
       r < length all \<and> (\<forall>j<length all. all ! r \<le> all ! j) \<and> (\<forall>j<r. all ! r < all ! j)"
  using assms
proof (induction vs arbitrary: k best bv pre)
  case Nil
  then show ?case by (simp add: Let_def)
next
  case (Cons v vs)
  show ?case
  proof (cases "v < bv")
    case True
    have "let r = argmin_loop vs (Suc k) k v; all = (pre @ [v]) @ vs in
       r < length all \<and> (\<forall>j<length all. all ! r \<le> all ! j) \<and> (\<forall>j<r. all ! r < all ! j)"
    proof (rule Cons.IH)
      show "\<forall>j<Suc k. v \<le> (pre @ [v]) ! j"
        using True Cons.prems(2,4) by (auto simp: nth_append less_Suc_eq)
      show "\<forall>j<k. v < (pre @ [v]) ! j"
        using True Cons.prems(2,4) by (auto simp: nth_append)
    qed (use Cons.prems in \<open>simp_all add: nth_append\<close>)
    then show ?thesis using True by simp
  next
    case False
    have "let r = argmin_loop vs (Suc k) best bv; all = (pre @ [v]) @ vs in
       r < length all \<and> (\<forall>j<length all. all ! r \<le> all ! j) \<and> (\<forall>j<r. all ! r < all ! j)"
    proof (rule Cons.IH)
      show "\<forall>j<Suc k. bv \<le> (pre @ [v]) ! j"
        using False Cons.prems(2,4) by (auto simp: nth_append less_Suc_eq)
      show "\<forall>j<best. bv < (pre @ [v]) ! j"
        using Cons.prems(1,2,5) by (auto simp: nth_append)
    qed (use Cons.prems in \<open>simp_all add: nth_append\<close>)
    then show ?thesis using False by simp
  qed
qed

lemma numpy_argmin_props:
  assumes "numpy_argmin vs = Inr k"
  shows "k < length vs \<and> (\<forall>j<length vs. vs ! k \<le> vs ! j) \<and> (\<forall>j<k. vs ! k < vs ! j)"
proof (cases vs)
  case Nil
  then show ?thesis using assms by (simp add: numpy_argmin_def)
next
  case (Cons v rest)
  then have k: "k = argmin_loop rest 1 0 v" using assms by (simp add: numpy_argmin_def)
  have "let r = argmin_loop rest 1 0 v; all = [v] @ rest in
       r < length all \<and> (\<forall>j<length all. all ! r \<le> all ! j) \<and> (\<forall>j<r. all ! r < all ! j)"
    by (rule argmin_loop_props) simp_all
  then show ?thesis using k Cons by (simp add: Let_def)
qed

lemma numpy_argmin_nonempty: "vs \<noteq> [] \<Longrightarrow> \<exists>k. numpy_argmin vs = Inr k"
  by (cases vs) (simp_all add: numpy_argmin_def)

section \<open>The storage properties\<close>

text \<open>
  Claim C10. For each of the properties \<^verbatim>\<open>griddedvis\<close>, \<^verbatim>\<open>imagearray\<close> and
  \<^verbatim>\<open>uvgridconfig\<close>: assigning \<^verbatim>\<open>None\<close> stores \<^verbatim>\<open>None\<close>; assigning an object whose type
  is exactly the property's storage class stores that object; assigning anything else
  raises \<^verbatim>\<open>TypeError\<close> and leaves the imager as it was, so that the getter still returns
  the value stored before.
\<close>

theorem property_setters:
  fixes s :: "('v, 'i, 'u, 'g) imager" and val :: "('v, 'i, 'u) pyval"
  shows
    "(fst (set_griddedvis PyNone s) = Inr ()
        \<and> get_griddedvis (snd (set_griddedvis PyNone s)) = PyNone)
     \<and> (fst (set_griddedvis (GriddedVisibilityStorage v) s) = Inr ()
        \<and> get_griddedvis (snd (set_griddedvis (GriddedVisibilityStorage v) s))
            = GriddedVisibilityStorage v)
     \<and> (val \<noteq> PyNone \<and> (\<forall>w. val \<noteq> GriddedVisibilityStorage w)
        \<longrightarrow> set_griddedvis val s = (Inl TypeError, s)
            \<and> get_griddedvis (snd (set_griddedvis val s)) = get_griddedvis s)
     \<and> (fst (set_imagearray PyNone s) = Inr ()
        \<and> get_imagearray (snd (set_imagearray PyNone s)) = PyNone)
     \<and> (fst (set_imagearray (ResultingImageStorage i) s) = Inr ()
        \<and> get_imagearray (snd (set_imagearray (ResultingImageStorage i) s))
            = ResultingImageStorage i)
     \<and> (val \<noteq> PyNone \<and> (\<forall>w. val \<noteq> ResultingImageStorage w)
        \<longrightarrow> set_imagearray val s = (Inl TypeError, s)
            \<and> get_imagearray (snd (set_imagearray val s)) = get_imagearray s)
     \<and> (fst (set_uvgridconfig PyNone s) = Inr ()
        \<and> get_uvgridconfig (snd (set_uvgridconfig PyNone s)) = PyNone)
     \<and> (fst (set_uvgridconfig (UVGridConfig u) s) = Inr ()
        \<and> get_uvgridconfig (snd (set_uvgridconfig (UVGridConfig u) s)) = UVGridConfig u)
     \<and> (val \<noteq> PyNone \<and> (\<forall>w. val \<noteq> UVGridConfig w)
        \<longrightarrow> set_uvgridconfig val s = (Inl TypeError, s)
            \<and> get_uvgridconfig (snd (set_uvgridconfig val s)) = get_uvgridconfig s)"
  by (simp add: set_griddedvis_def get_griddedvis_def set_imagearray_def get_imagearray_def
        set_uvgridconfig_def get_uvgridconfig_def split: pyval.splits)

text \<open>A string assigned to each property of the example imager.\<close>

theorem property_setters_witness:
  "set_griddedvis (OtherObject ''str'') example_imager = (Inl TypeError, example_imager)
   \<and> get_griddedvis (snd (set_griddedvis (OtherObject ''str'') example_imager))
       = GriddedVisibilityStorage ()
   \<and> set_imagearray (OtherObject ''str'') example_imager = (Inl TypeError, example_imager)
   \<and> set_uvgridconfig (OtherObject ''str'') example_imager = (Inl TypeError, example_imager)"
  using property_setters [of example_imager "()" "OtherObject ''str''" "(0, 0)" "()"]
  by (simp add: get_griddedvis_def example_imager_def)

section \<open>The cross-validation session\<close>

text \<open>
  Claim C9. When \<^verbatim>\<open>initializecv\<close> is called while a subset generator is still held
  (\<^verbatim>\<open>self.visset\<close> is not \<^verbatim>\<open>None\<close>), the imager, and with it the generator and its fold
  count, stays as it is whatever \<^verbatim>\<open>num_fold\<close> is given. The held generator changes only
  when there was none, and then it is the one built from the gridded visibility and
  the requested \<^verbatim>\<open>num_fold\<close>.
\<close>

theorem initializecv_existing_generator:
  fixes s :: "('v, 'i, 'u, 'g) imager"
  shows
    "(visset s = Some g \<longrightarrow>
        snd (initializecv x num_fold s) = s
        \<and> snd (initializecv x num_fold s) = snd (initializecv x num_fold' s)
        \<and> (get_griddedvis s \<noteq> PyNone \<longrightarrow> initializecv x num_fold s = (Inr (), s)))
     \<and> (visset (snd (initializecv x num_fold s)) \<noteq> visset s \<longrightarrow>
        visset s = None
        \<and> (\<exists>g'. new_visset x (get_griddedvis s) num_fold = Inr g'
                \<and> visset (snd (initializecv x num_fold s)) = Some g'))
     \<and> (visset s = None \<and> get_griddedvis s \<noteq> PyNone
          \<and> new_visset x (get_griddedvis s) num_fold = Inr g
        \<longrightarrow> initializecv x num_fold s = (Inr (), s\<lparr>visset := Some g\<rparr>))"
  by (auto simp: initializecv_def split: option.splits sum.splits)

text \<open>The example imager holding a generator of 10 folds, asked for 3, and the example
  imager without a generator, asked for 3.\<close>

theorem initializecv_existing_generator_witness:
  "initializecv example_ext 3 (example_imager\<lparr>visset := Some 10\<rparr>)
     = (Inr (), example_imager\<lparr>visset := Some 10\<rparr>)
   \<and> initializecv example_ext 3 example_imager = (Inr (), example_imager\<lparr>visset := Some 3\<rparr>)"
proof -
  let ?s = "example_imager\<lparr>visset := Some (10::int)\<rparr>"
  have a: "visset ?s = Some 10" by simp
  have b: "get_griddedvis ?s \<noteq> PyNone"
    by (simp add: get_griddedvis_def example_imager_def)
  have c: "visset example_imager = None \<and> get_griddedvis example_imager \<noteq> PyNone
           \<and> new_visset example_ext (get_griddedvis example_imager) 3 = Inr 3"
    by (simp add: get_griddedvis_def example_imager_def example_ext_def)
  have "initializecv example_ext 3 ?s = (Inr (), ?s)"
    using initializecv_existing_generator [of ?s 10 example_ext 3 3] a b by blast
  moreover have "initializecv example_ext 3 example_imager
                   = (Inr (), example_imager\<lparr>visset := Some 3\<rparr>)"
    using initializecv_existing_generator [of example_imager 3 example_ext 3 3] c by blast
  ultimately show ?thesis by simp
qed

text \<open>
  Claim C3. With a session whose fold count is 1 (the gridded visibility being set, as
  \<^verbatim>\<open>initializecv\<close> requires), \<^verbatim>\<open>computegridmse\<close> returns \<open>-1.0\<close> for every \<open>l1\<close> and
  \<open>ltsv\<close> and leaves the imager untouched: the list of solver invocations is the same
  afterwards.
\<close>

theorem computegridmse_single_fold:
  fixes s :: "('v, 'i, 'u, 'g) imager"
  assumes "visset s = Some g" and "num_fold_of x g = 1" and "get_griddedvis s \<noteq> PyNone"
  shows "computegridmse x l1 ltsv maxiter eps clean_box s = (Inr (- 1), s)
         \<and> solver_log (snd (computegridmse x l1 ltsv maxiter eps clean_box s)) = solver_log s"
  using assms by (simp add: computegridmse_def)

theorem computegridmse_single_fold_witness:
  "computegridmse example_ext (1/100) (1/10) 50000 (1/100000) None
      (example_imager\<lparr>visset := Some 1\<rparr>)
     = (Inr (- 1), example_imager\<lparr>visset := Some 1\<rparr>)"
  using computegridmse_single_fold
          [of "example_imager\<lparr>visset := Some 1\<rparr>" 1 example_ext "1/100" "1/10" 50000
              "1/100000" None]
  by (simp add: example_imager_def example_ext_def get_griddedvis_def)

section \<open>Deleting the trial images\<close>

lemma remove_images_Cons:
  "remove_images (p # ps) s =
     (if p \<in> dom (files s) then remove_images ps (s\<lparr>files := (files s)(p := None)\<rparr>)
      else (Inl OSError, s))"
  by (auto simp: os_remove_def split: option.splits)

lemma remove_images_Inr:
  "remove_images ps s = (Inr u, s') \<longleftrightarrow>
     distinct ps \<and> set ps \<subseteq> dom (files s) \<and> s' = s\<lparr>files := files s |` (- set ps)\<rparr>"
proof (induction ps arbitrary: s)
  case Nil
  show ?case by (auto simp: restrict_map_def)
next
  case (Cons p ps)
  show ?case
  proof (cases "p \<in> dom (files s)")
    case False
    then show ?thesis by (simp only: remove_images_Cons) auto
  next
    case True
    let ?s1 = "s\<lparr>files := (files s)(p := None)\<rparr>"
    have eq: "files ?s1 |` (- set ps) = files s |` (- set (p # ps))"
      by (rule ext) (simp add: restrict_map_def)
    have upd: "?s1\<lparr>files := files ?s1 |` (- set ps)\<rparr> = s\<lparr>files := files s |` (- set (p # ps))\<rparr>"
      by (simp only: eq) simp
    have sub: "set ps \<subseteq> dom (files ?s1) \<longleftrightarrow> set ps \<subseteq> dom (files s) \<and> p \<notin> set ps"
      by auto
    have "remove_images (p # ps) s = (Inr u, s') \<longleftrightarrow> remove_images ps ?s1 = (Inr u, s')"
      using True by (simp only: remove_images_Cons if_True)
    also have "\<dots> \<longleftrightarrow> distinct ps \<and> set ps \<subseteq> dom (files ?s1)
                  \<and> s' = ?s1\<lparr>files := files ?s1 |` (- set ps)\<rparr>"
      by (rule Cons.IH)
    also have "\<dots> \<longleftrightarrow> distinct (p # ps) \<and> set (p # ps) \<subseteq> dom (files s)
                  \<and> s' = s\<lparr>files := files s |` (- set (p # ps))\<rparr>"
      using True by (simp only: upd sub) auto
    finally show ?thesis .
  qed
qed

text \<open>
  Claim C7, as the code has it. The clean-up of the \<^verbatim>\<open>best\<close> policy is not idempotent.
  It calls \<^verbatim>\<open>os.remove\<close> on each recorded path in turn, so it ends without an error
  exactly when the recorded paths are pairwise distinct and every one of them exists;
  it then has deleted exactly these files. Run again on the state it leaves (or on a
  list that names a path twice) it raises \<^verbatim>\<open>OSError\<close>.
\<close>

theorem remove_images_not_idempotent:
  fixes s :: "('v, 'i, 'u, 'g) imager"
  shows
    "((\<exists>s'. remove_images ps s = (Inr (), s')) \<longleftrightarrow> distinct ps \<and> set ps \<subseteq> dom (files s))
     \<and> (remove_images ps s = (Inr (), s') \<longrightarrow>
          files s' = files s |` (- set ps)
          \<and> (ps \<noteq> [] \<longrightarrow> fst (remove_images ps s') = Inl OSError))"
proof -
  have a: "(\<exists>s'. remove_images ps s = (Inr (), s')) \<longleftrightarrow> distinct ps \<and> set ps \<subseteq> dom (files s)"
    by (simp add: remove_images_Inr)
  have b: "fst (remove_images ps s') = Inl OSError"
    if run: "remove_images ps s = (Inr (), s')" and ne: "ps \<noteq> []"
  proof -
    obtain p rest where ps: "ps = p # rest" using ne by (cases ps) auto
    have "files s' = files s |` (- set ps)" using run by (simp add: remove_images_Inr)
    then have "files s' p = None" by (simp add: ps)
    then show ?thesis by (simp add: ps os_remove_def)
  qed
  have c: "files s' = files s |` (- set ps)" if "remove_images ps s = (Inr (), s')"
    using that by (simp add: remove_images_Inr)
  show ?thesis using a b c by blast
qed

text \<open>Two trial images on disk, deleted once: no error; the same list again: \<^verbatim>\<open>OSError\<close>.\<close>

theorem remove_images_not_idempotent_witness:
  "remove_images [''L1_-2_Ltsv_-2.pickle'', ''L1_-3_Ltsv_-2.pickle'']
      (example_imager\<lparr>files := [''L1_-2_Ltsv_-2.pickle'' \<mapsto> Text [],
                                 ''L1_-3_Ltsv_-2.pickle'' \<mapsto> Text []]\<rparr>)
     = (Inr (), example_imager)
   \<and> fst (remove_images [''L1_-2_Ltsv_-2.pickle'', ''L1_-3_Ltsv_-2.pickle''] example_imager)
       = Inl OSError"
proof -
  have run: "remove_images [''L1_-2_Ltsv_-2.pickle'', ''L1_-3_Ltsv_-2.pickle'']
      (example_imager\<lparr>files := [''L1_-2_Ltsv_-2.pickle'' \<mapsto> Text [],
                                 ''L1_-3_Ltsv_-2.pickle'' \<mapsto> Text []]\<rparr>)
     = (Inr (), example_imager)"
    by (simp add: os_remove_def example_imager_def)
  show ?thesis
    using run remove_images_not_idempotent
      [of "[''L1_-2_Ltsv_-2.pickle'', ''L1_-3_Ltsv_-2.pickle'']"
          "example_imager\<lparr>files := [''L1_-2_Ltsv_-2.pickle'' \<mapsto> Text [],
                                     ''L1_-3_Ltsv_-2.pickle'' \<mapsto> Text []]\<rparr>"
          example_imager]
    by simp
qed

text \<open>Claim C7 as stated fails: a list that names the same existing file twice.\<close>

theorem remove_images_twice_counterexample:
  "fst (remove_images [''L1_-2_Ltsv_-2.pickle'', ''L1_-2_Ltsv_-2.pickle'']
          (example_imager\<lparr>files := [''L1_-2_Ltsv_-2.pickle'' \<mapsto> Text []]\<rparr>))
     = Inl OSError"
  by (simp add: os_remove_def example_imager_def)

section \<open>What one trial does to the files\<close>

lemma priv_mfista_files: "priv_mfista x param vis st ov s = (r, s') \<Longrightarrow> files s' = files s"
  by (auto simp: priv_mfista_def Let_def split: if_splits sum.splits)

lemma priv_mfista_imagearray:
  "priv_mfista x param vis st ov s = (r, s') \<Longrightarrow> imagearray_slot s' = imagearray_slot s"
  by (auto simp: priv_mfista_def Let_def split: if_splits sum.splits)

lemma mfista_files:
  "mfista x l1 ltsv maxiter eps cb st ov s = (r, s') \<Longrightarrow> files s' = files s"
  by (auto simp: mfista_def Let_def set_imagearray_def split: prod.splits sum.splits
           dest: priv_mfista_files)

lemma mfista_imagearray:
  "mfista x l1 ltsv maxiter eps cb st ov s = (Inr u, s')
     \<Longrightarrow> \<exists>arr. get_imagearray s' = ResultingImageStorage arr"
  by (auto simp: mfista_def Let_def set_imagearray_def get_imagearray_def
           split: prod.splits sum.splits)

lemma fold_loop_files: "fold_loop x param g ks acc s = (r, s') \<Longrightarrow> files s' = files s"
proof (induction ks arbitrary: acc s)
  case Nil
  then show ?case by simp
next
  case (Cons k ks)
  then show ?case
    by (auto split: sum.splits prod.splits dest: priv_mfista_files)
qed

lemma computegridmse_files:
  "computegridmse x l1 ltsv maxiter eps cb s = (r, s') \<Longrightarrow> files s' = files s"
  by (auto simp: computegridmse_def Let_def split: if_splits option.splits prod.splits sum.splits
           dest: fold_loop_files)

lemma image_name_not_data: "image_name a b \<noteq> ''cvresult.dat''"
  by (simp add: image_name_def)


lemma trial_body_Inr:
  assumes "trial_body x a L1 Ltsv s = (Inr t, s')"
  shows "L1 = F (t_L1 t) \<and> Ltsv = F (t_Ltsv t) \<and> trial_ok x t
         \<and> (\<exists>arr. files s' =
               files (print_to (a_file a) (trial_line x t)
                  (s\<lparr>files := (files s)(t_image t \<mapsto> Pickled (ResultingImageStorage arr))\<rparr>)))"
proof -
  obtain v1 v2 where L: "L1 = F v1" "Ltsv = F v2" and pos: "0 < v1" "0 < v2"
    using assms
    by (cases L1; cases Ltsv) (auto simp: trial_body_def split: if_splits)
  define imagename where
    "imagename = image_name (py_int (float_log10 x v1)) (py_int (float_log10 x v2))"
  obtain s1 where m: "mfista x v1 v2 (a_maxiter a) (a_eps a) (a_clean_box a) True True s = (Inr (), s1)"
    using assms L pos
    by (auto simp: trial_body_def Let_def split: prod.splits sum.splits)
  obtain arr where arr: "get_imagearray s1 = ResultingImageStorage arr"
    using mfista_imagearray [OF m] by blast
  have f1: "files s1 = files s" using mfista_files [OF m] .
  define s2 where "s2 = s1\<lparr>files := (files s1)(imagename \<mapsto> Pickled (ResultingImageStorage arr))\<rparr>"
  have e: "exportimage imagename True s1 = (Inr (), s2)"
    by (simp add: exportimage_def arr s2_def)
  obtain mse s3 where c: "computegridmse x v1 v2 (a_maxiter a) (a_eps a) (a_clean_box a) s2 = (Inr mse, s3)"
    using assms L pos m e
    by (auto simp: trial_body_def Let_def imagename_def split: prod.splits sum.splits)
  have f3: "files s3 = files s2" using computegridmse_files [OF c] .
  have res: "t = \<lparr>t_L1 = v1, t_Ltsv = v2, t_mse = mse, t_image = imagename\<rparr>
             \<and> s' = print_to (a_file a) (data_line (repr_float x) v1 v2 mse) s3"
    using assms L pos m e c
    by (auto simp: trial_body_def Let_def imagename_def split: if_splits sum.splits)
  have t: "t_L1 t = v1" "t_Ltsv t = v2" "t_mse t = mse" "t_image t = imagename"
    using res by simp_all
  have ok: "trial_ok x t" by (simp add: trial_ok_def t pos imagename_def)
  have "files s' = files (print_to (a_file a) (trial_line x t)
                  (s\<lparr>files := (files s)(t_image t \<mapsto> Pickled (ResultingImageStorage arr))\<rparr>))"
    using res by (simp add: print_to_def trial_line_def t f3 s2_def f1 split: option.splits)
  then show ?thesis using L t ok by blast
qed


section \<open>What the loops leave behind\<close>

lemma sweep_files_Nil: "sweep_files x f s [] s"
  by (simp add: sweep_files_def)

lemma sweep_files_trans:
  assumes "sweep_files x f s ts1 s1" and "sweep_files x f s1 ts2 s2"
  shows "sweep_files x f s (ts1 @ ts2) s2"
proof -
  have c1: "Some (t_image t) \<noteq> f
            \<and> (\<exists>v. files s2 (t_image t) = Some (Pickled (ResultingImageStorage v)))"
    if "t \<in> set (ts1 @ ts2)" for t
  proof (cases "t_image t \<in> t_image ` set ts2")
    case True
    then obtain t' where "t' \<in> set ts2" "t_image t' = t_image t" by auto
    then show ?thesis using assms(2) by (auto simp: sweep_files_def)
  next
    case False
    then have "t \<in> set ts1" using that by auto
    then have a: "Some (t_image t) \<noteq> f"
      and b: "\<exists>v. files s1 (t_image t) = Some (Pickled (ResultingImageStorage v))"
      using assms(1) by (auto simp: sweep_files_def)
    have "files s2 (t_image t) = files s1 (t_image t)"
      using assms(2) False a unfolding sweep_files_def by auto
    then show ?thesis using a b by simp
  qed
  have c2: "files s2 q = files s q" if "q \<notin> t_image ` set (ts1 @ ts2) \<and> Some q \<noteq> f" for q
  proof -
    have "files s2 q = files s1 q" using assms(2) that unfolding sweep_files_def by auto
    moreover have "files s1 q = files s q" using assms(1) that unfolding sweep_files_def by auto
    ultimately show ?thesis by simp
  qed
  have c3: "files s2 p = Some (Text (ls @ map (trial_line x) (ts1 @ ts2)))"
    if "f = Some p \<and> files s p = Some (Text ls)" for p ls
  proof -
    have "files s1 p = Some (Text (ls @ map (trial_line x) ts1))"
      using assms(1) that unfolding sweep_files_def by blast
    then have "files s2 p = Some (Text ((ls @ map (trial_line x) ts1) @ map (trial_line x) ts2))"
      using assms(2) that unfolding sweep_files_def by blast
    then show ?thesis by simp
  qed
  show ?thesis unfolding sweep_files_def using c1 c2 c3 by blast
qed

lemma sweep_files_step:
  assumes "trial_body x a L1 Ltsv s = (Inr t, s')"
    and "a_file a = None \<or> a_file a = Some ''cvresult.dat''"
  shows "sweep_files x (a_file a) s [t] s'"
proof -
  from trial_body_Inr [OF assms(1)] obtain arr where
    ok: "trial_ok x t" and
    fs: "files s' = files (print_to (a_file a) (trial_line x t)
                  (s\<lparr>files := (files s)(t_image t \<mapsto> Pickled (ResultingImageStorage arr))\<rparr>))"
    by blast
  have ne: "t_image t \<noteq> ''cvresult.dat''"
    using ok by (simp add: trial_ok_def image_name_not_data)
  show ?thesis
    using assms(2) ne by (auto simp: sweep_files_def fs print_to_def)
qed

lemma inner_loop_Inr:
  assumes "inner_loop x a sl Ltsv ks acc s = (Inr acc', s')"
    and "a_file a = None \<or> a_file a = Some ''cvresult.dat''"
  shows "\<exists>ts. acc' = acc @ ts \<and> map (\<lambda>t. F (t_L1 t)) ts = map (\<lambda>k. sl ! k) ks
              \<and> (\<forall>t \<in> set ts. F (t_Ltsv t) = Ltsv \<and> trial_ok x t)
              \<and> sweep_files x (a_file a) s ts s'"
  using assms(1)
proof (induction ks arbitrary: acc s)
  case Nil
  then show ?case by (simp add: sweep_files_Nil)
next
  case (Cons k ks)
  from Cons.prems obtain t s1 where
    b: "trial_body x a (sl ! k) Ltsv s = (Inr t, s1)" and
    r: "inner_loop x a sl Ltsv ks (acc @ [t]) s1 = (Inr acc', s')"
    by (auto split: prod.splits sum.splits)
  from Cons.IH [OF r] obtain ts where
    ts: "acc' = (acc @ [t]) @ ts" "map (\<lambda>t. F (t_L1 t)) ts = map (\<lambda>k. sl ! k) ks"
        "\<forall>t \<in> set ts. F (t_Ltsv t) = Ltsv \<and> trial_ok x t" "sweep_files x (a_file a) s1 ts s'"
    by blast
  have t: "sl ! k = F (t_L1 t)" "Ltsv = F (t_Ltsv t)" "trial_ok x t"
    using trial_body_Inr [OF b] by simp_all
  have "sweep_files x (a_file a) s ([t] @ ts) s'"
    using sweep_files_trans [OF sweep_files_step [OF b assms(2)] ts(4)] .
  then show ?case using ts(1,2,3) t by (intro exI [of _ "t # ts"]) simp
qed

lemma outer_loop_Inr:
  assumes "outer_loop x a sl st js acc s = (Inr acc', s')"
    and "a_file a = None \<or> a_file a = Some ''cvresult.dat''"
  shows "\<exists>ts. acc' = acc @ ts
              \<and> map (\<lambda>t. (F (t_L1 t), F (t_Ltsv t))) ts
                  = concat (map (\<lambda>j. map (\<lambda>k. (sl ! k, st ! j)) (rev [0..<length sl])) js)
              \<and> (\<forall>t \<in> set ts. trial_ok x t)
              \<and> sweep_files x (a_file a) s ts s'"
  using assms(1)
proof (induction js arbitrary: acc s)
  case Nil
  then show ?case by (simp add: sweep_files_Nil)
next
  case (Cons j js)
  from Cons.prems obtain acc1 s1 where
    i: "inner_loop x a sl (st ! j) (rev [0..<length sl]) acc s = (Inr acc1, s1)" and
    r: "outer_loop x a sl st js acc1 s1 = (Inr acc', s')"
    by (auto split: prod.splits sum.splits)
  from inner_loop_Inr [OF i assms(2)] obtain ts1 where
    ts1: "acc1 = acc @ ts1" "map (\<lambda>t. F (t_L1 t)) ts1 = map (\<lambda>k. sl ! k) (rev [0..<length sl])"
         "\<forall>t \<in> set ts1. F (t_Ltsv t) = st ! j \<and> trial_ok x t" "sweep_files x (a_file a) s ts1 s1"
    by blast
  from Cons.IH [OF r] obtain ts2 where
    ts2: "acc' = acc1 @ ts2"
         "map (\<lambda>t. (F (t_L1 t), F (t_Ltsv t))) ts2
            = concat (map (\<lambda>j. map (\<lambda>k. (sl ! k, st ! j)) (rev [0..<length sl])) js)"
         "\<forall>t \<in> set ts2. trial_ok x t" "sweep_files x (a_file a) s1 ts2 s'"
    by blast
  have "map (\<lambda>t. (F (t_L1 t), F (t_Ltsv t))) ts1 = map (\<lambda>t. (F (t_L1 t), st ! j)) ts1"
    using ts1(3) by simp
  also have "\<dots> = map (\<lambda>v. (v, st ! j)) (map (\<lambda>t. F (t_L1 t)) ts1)"
    by simp
  also have "\<dots> = map (\<lambda>k. (sl ! k, st ! j)) (rev [0..<length sl])"
    by (simp only: ts1(2)) simp
  finally have k1: "map (\<lambda>t. (F (t_L1 t), F (t_Ltsv t))) ts1
                      = map (\<lambda>k. (sl ! k, st ! j)) (rev [0..<length sl])" .
  have "sweep_files x (a_file a) s (ts1 @ ts2) s'"
    using sweep_files_trans [OF ts1(4) ts2(4)] .
  then show ?case
    using ts1(1,3) ts2(1,2,3) k1 by (intro exI [of _ "ts1 @ ts2"]) auto
qed

section \<open>What the sweep leaves behind\<close>

lemma initializecv_files: "initializecv x num_fold s = (r, s') \<Longrightarrow> files s' = files s"
  by (auto simp: initializecv_def split: if_splits option.splits sum.splits)

lemma sweep_files_cong:
  "files s = files s0 \<Longrightarrow> files s' = files s0' \<Longrightarrow>
     sweep_files x f s ts s' = sweep_files x f s0 ts s0'"
  by (simp add: sweep_files_def)

lemma cv_sweep_Inr:
  assumes "cv_sweep x l1_list ltsv_list num_fold imagepolicy summarize datafile maxiter eps
             clean_box s = (Inr trials, s')"
  shows "(imagepolicy = ''best'' \<or> imagepolicy = ''full'')
         \<and> map (\<lambda>t. (F (t_L1 t), F (t_Ltsv t))) trials
             = concat (map (\<lambda>j. map (\<lambda>k. (sorted_list (numpy_asarray (repr_float x) l1_list) ! k,
                                           sorted_list (numpy_asarray (repr_float x) ltsv_list) ! j))
                                   (rev [0..<length (sorted_list (numpy_asarray (repr_float x) l1_list))]))
                         [0..<len (numpy_asarray (repr_float x) ltsv_list)])
         \<and> (\<forall>t \<in> set trials. trial_ok x t)
         \<and> sweep_files x (if datafile \<noteq> None then Some ''cvresult.dat'' else None)
              (print_to (if datafile \<noteq> None then Some ''cvresult.dat'' else None)
                 ''# L1, Ltsv, MSE''
                 (open_w (if datafile \<noteq> None then Some ''cvresult.dat'' else None) s))
              trials s'"
proof -
  define f where "f = (if datafile \<noteq> None then Some ''cvresult.dat'' else None)"
  define a where "a = \<lparr>a_summarize = summarize, a_file = f, a_maxiter = maxiter,
                           a_eps = eps, a_clean_box = clean_box\<rparr>"
  define sl where "sl = sorted_list (numpy_asarray (repr_float x) l1_list)"
  define st where "st = sorted_list (numpy_asarray (repr_float x) ltsv_list)"
  define s1 where "s1 = print_to f ''# L1, Ltsv, MSE'' (open_w f s)"
  have af: "a_file a = f" by (simp add: a_def)
  have fa: "a_file a = None \<or> a_file a = Some ''cvresult.dat''" by (simp add: a_def f_def)
  have pol: "imagepolicy = ''best'' \<or> imagepolicy = ''full''"
    using assms by (auto simp: cv_sweep_def split: if_splits)
  obtain s2 s3 where
    i: "initializecv x num_fold s1 = (Inr (), s2)" and
    o: "outer_loop x a sl st [0..<len (numpy_asarray (repr_float x) ltsv_list)] [] s2
          = (Inr trials, s3)" and
    s': "s' = finalizecv s3"
    using assms
    unfolding cv_sweep_def Let_def f_def [symmetric] a_def [symmetric] sl_def [symmetric]
      st_def [symmetric] s1_def [symmetric]
    by (auto split: if_splits prod.splits sum.splits)
  from outer_loop_Inr [OF o fa] have
    k: "map (\<lambda>t. (F (t_L1 t), F (t_Ltsv t))) trials
          = concat (map (\<lambda>j. map (\<lambda>k. (sl ! k, st ! j)) (rev [0..<length sl]))
                      [0..<len (numpy_asarray (repr_float x) ltsv_list)])" and
    ok: "\<forall>t \<in> set trials. trial_ok x t" and
    sf: "sweep_files x f s2 trials s3"
    by (auto simp: af)
  have "files s2 = files s1" using initializecv_files [OF i] .
  moreover have "files s' = files s3" by (simp add: s' finalizecv_def)
  ultimately have "sweep_files x f s1 trials s'"
    using sf sweep_files_cong [of s2 s1 s3 s' x f trials] by simp
  then show ?thesis
    using pol k ok unfolding f_def sl_def st_def s1_def by blast
qed

lemma nth_pairs_concat:
  "concat (map (\<lambda>j. map (\<lambda>k. (as ! k, bs ! j)) (rev [0..<length as])) [0..<length bs])
     = concat (map (\<lambda>b. map (\<lambda>a. (a, b)) (rev as)) bs)"
proof -
  have inner: "map (\<lambda>k. (as ! k, b)) (rev [0..<length as]) = map (\<lambda>a. (a, b)) (rev as)" for b :: 'b
  proof -
    have "map (\<lambda>k. (as ! k, b)) (rev [0..<length as])
            = map (\<lambda>a. (a, b)) (rev (map (\<lambda>k. as ! k) [0..<length as]))"
      by (simp add: rev_map)
    then show ?thesis by (simp only: map_nth)
  qed
  have "map (\<lambda>j. map (\<lambda>k. (as ! k, bs ! j)) (rev [0..<length as])) [0..<length bs]
          = map (\<lambda>j. (\<lambda>b. map (\<lambda>a. (a, b)) (rev as)) (bs ! j)) [0..<length bs]"
    by (simp add: inner)
  also have "\<dots> = map (\<lambda>b. map (\<lambda>a. (a, b)) (rev as)) (map (\<lambda>j. bs ! j) [0..<length bs])"
    by simp
  also have "\<dots> = map (\<lambda>b. map (\<lambda>a. (a, b)) (rev as)) bs"
    by (simp only: map_nth)
  finally show ?thesis by simp
qed

lemma F_pairs_inj:
  "map (\<lambda>t. (F (t_L1 t), F (t_Ltsv t))) ts = map (\<lambda>(a, b). (F a, F b)) ps
     \<Longrightarrow> map (\<lambda>t. (t_L1 t, t_Ltsv t)) ts = ps"
proof (induction ts arbitrary: ps)
  case Nil
  then show ?case by simp
next
  case (Cons t ts)
  then show ?case by (cases ps) auto
qed

section \<open>The example runs, evaluated\<close>

lemma py_int_of_int: "py_int (real_of_int k) = k"
  by (simp add: py_int_def)

lemma py_int_vals: "py_int (- 1) = - 1" "py_int (- 2) = - 2" "py_int (- 3) = - 3"
  using py_int_of_int [of "- 1"] py_int_of_int [of "- 2"] py_int_of_int [of "- 3"] by simp_all

lemma log10_vals: "log 10 (1/10) = - 1" "log 10 (1/100) = - 2" "log 10 (1/1000) = - 3"
proof -
  have "log 10 ((10::real) ^ 2) = real 2" by (rule log_pow_cancel) simp_all
  then have a: "log 10 100 = 2" by simp
  have "log 10 ((10::real) ^ 3) = real 3" by (rule log_pow_cancel) simp_all
  then have b: "log 10 1000 = 3" by simp
  show "log 10 (1/10) = - 1" by (simp add: log_divide)
  show "log 10 (1/100) = - 2" by (simp add: log_divide a)
  show "log 10 (1/1000) = - 3" by (simp add: log_divide b)
qed

lemma upt_0_2: "[0..<2] = [0, Suc 0]"
  by (simp add: upt_rec)

lemmas example_simps =
  cvforgridvis_def cv_sweep_def cv_select_copy_def trial_body_def
  example_ext_def example_imager_def example_mse_def example_repr_def
  numpy_argsort_def numpy_argmin_def shutil_copy2_def os_remove_def
  initializecv_def finalizecv_def computegridmse_def mfista_def priv_mfista_def
  exportimage_def getimage_def print_to_def open_w_def data_line_def
  get_griddedvis_def get_imagearray_def get_uvgridconfig_def set_imagearray_def
  image_name_def show_int_def show_nat.simps imagesuffix_def log10_vals py_int_vals
  upt_0_2 Let_def

text \<open>The sweep of the example: candidates \<open>L1 \<in> {1e-3, 1e-2}\<close>, \<open>Ltsv \<in> {1e-2, 1e-1}\<close>,
  two folds.\<close>

lemma example_sweep_trials:
  "fst (cv_sweep example_ext [Num (1/1000), Num (1/100)] [Num (1/100), Num (1/10)] 2 ''full''
          False None 50000 (1/100000) None example_imager)
     = Inr [\<lparr>t_L1 = 1/100, t_Ltsv = 1/100, t_mse = 5/10, t_image = ''L1_-2_Ltsv_-2.pickle''\<rparr>,
            \<lparr>t_L1 = 1/1000, t_Ltsv = 1/100, t_mse = 3/10, t_image = ''L1_-3_Ltsv_-2.pickle''\<rparr>,
            \<lparr>t_L1 = 1/100, t_Ltsv = 1/10, t_mse = 9/10, t_image = ''L1_-2_Ltsv_-1.pickle''\<rparr>,
            \<lparr>t_L1 = 1/1000, t_Ltsv = 1/10, t_mse = 4/10, t_image = ''L1_-3_Ltsv_-1.pickle''\<rparr>]"
  by (simp add: example_simps)

lemma example_run_full:
  "fst (cvforgridvis example_ext [Num (1/1000), Num (1/100)] [Num (1/100), Num (1/10)] 2
          ''image'' ''full'' False None None 50000 (1/100000) None example_imager)
     = Inr [''L1'' \<mapsto> DFloat (1/1000), ''Ltsv'' \<mapsto> DFloat (1/100)]"
  by (simp add: example_simps)

lemma example_run_full_files:
  "files (snd (cvforgridvis example_ext [Num (1/1000), Num (1/100)] [Num (1/100), Num (1/10)] 2
          ''image'' ''full'' False None None 50000 (1/100000) None example_imager))
     = [''L1_-2_Ltsv_-2.pickle'' \<mapsto> Pickled (ResultingImageStorage (1/100, 1/100)),
        ''L1_-3_Ltsv_-2.pickle'' \<mapsto> Pickled (ResultingImageStorage (1/1000, 1/100)),
        ''L1_-2_Ltsv_-1.pickle'' \<mapsto> Pickled (ResultingImageStorage (1/100, 1/10)),
        ''L1_-3_Ltsv_-1.pickle'' \<mapsto> Pickled (ResultingImageStorage (1/1000, 1/10)),
        ''image.pickle'' \<mapsto> Pickled (ResultingImageStorage (1/1000, 1/100))]"
  by (simp add: example_simps)

lemma example_run_best:
  "fst (cvforgridvis example_ext [Num (1/1000), Num (1/100)] [Num (1/100), Num (1/10)] 2
          ''image'' ''best'' True None (Some ''out.dat'') 50000 (1/100000) None example_imager)
     = Inr [''L1'' \<mapsto> DFloat (1/1000), ''Ltsv'' \<mapsto> DFloat (1/100)]"
  by (simp add: example_simps)

lemma example_run_best_files:
  "files (snd (cvforgridvis example_ext [Num (1/1000), Num (1/100)] [Num (1/100), Num (1/10)] 2
          ''image'' ''best'' True None (Some ''out.dat'') 50000 (1/100000) None example_imager))
     = [''cvresult.dat'' \<mapsto> Text [''# L1, Ltsv, MSE'', ''10, 10, 500'', ''1, 10, 300'',
                                       ''10, 100, 900'', ''1, 100, 400''],
        ''image.pickle'' \<mapsto> Pickled (ResultingImageStorage (1/1000, 1/100))]"
  by (simp add: example_simps)

section \<open>The solver invocations of a sweep\<close>

lemma full_data_calls_append:
  "full_data_calls (cs @ ds) = full_data_calls cs @ full_data_calls ds"
  by (simp add: full_data_calls_def)

lemma priv_mfista_fold_calls:
  "priv_mfista x param vis False ov s = (r, s')
     \<Longrightarrow> full_data_calls (solver_log s') = full_data_calls (solver_log s)"
  by (auto simp: priv_mfista_def Let_def full_data_calls_def split: if_splits sum.splits)

lemma fold_loop_calls:
  "fold_loop x param g ks acc s = (r, s')
     \<Longrightarrow> full_data_calls (solver_log s') = full_data_calls (solver_log s)"
proof (induction ks arbitrary: acc s)
  case Nil
  then show ?case by simp
next
  case (Cons k ks)
  then show ?case
    by (auto split: sum.splits prod.splits dest: priv_mfista_fold_calls)
qed

lemma computegridmse_calls:
  "computegridmse x l1 ltsv maxiter eps cb s = (r, s')
     \<Longrightarrow> full_data_calls (solver_log s') = full_data_calls (solver_log s)"
  by (auto simp: computegridmse_def Let_def split: if_splits option.splits prod.splits sum.splits
           dest: fold_loop_calls)

lemma mfista_calls:
  assumes "mfista x l1 ltsv maxiter eps cb True ov s = (r, s')"
  shows "(full_data_calls (solver_log s') = full_data_calls (solver_log s)
          \<or> full_data_calls (solver_log s') = full_data_calls (solver_log s) @ [(l1, ltsv)])
         \<and> ((\<exists>u. r = Inr u) \<longrightarrow>
               full_data_calls (solver_log s') = full_data_calls (solver_log s) @ [(l1, ltsv)])"
  using assms
  by (auto simp: mfista_def priv_mfista_def Let_def set_imagearray_def full_data_calls_def
           split: if_splits sum.splits prod.splits)

lemma exportimage_log: "exportimage imagename ov s = (r, s') \<Longrightarrow> solver_log s' = solver_log s"
  by (auto simp: exportimage_def split: if_splits)

lemma print_to_log: "solver_log (print_to f line s) = solver_log s"
  by (simp add: print_to_def split: option.splits)

lemma open_w_log: "solver_log (open_w f s) = solver_log s"
  by (simp add: open_w_def split: option.splits)

lemma initializecv_log: "initializecv x num_fold s = (r, s') \<Longrightarrow> solver_log s' = solver_log s"
  by (auto simp: initializecv_def split: if_splits option.splits sum.splits)

lemma trial_body_calls:
  assumes "trial_body x a (F v1) (F v2) s = (r, s')"
  shows "(full_data_calls (solver_log s') = full_data_calls (solver_log s)
          \<or> full_data_calls (solver_log s') = full_data_calls (solver_log s) @ [(v1, v2)])
         \<and> ((\<exists>t. r = Inr t) \<longrightarrow>
               full_data_calls (solver_log s') = full_data_calls (solver_log s) @ [(v1, v2)])"
proof (cases "0 < v1 \<and> 0 < v2")
  case False
  then have "s' = s \<and> (\<exists>e. r = Inl e)"
    using assms by (auto simp: trial_body_def split: if_splits)
  then show ?thesis by auto
next
  case pos: True
  obtain r1 s1 where m: "mfista x v1 v2 (a_maxiter a) (a_eps a) (a_clean_box a) True True s = (r1, s1)"
    by (cases "mfista x v1 v2 (a_maxiter a) (a_eps a) (a_clean_box a) True True s") auto
  note mc = mfista_calls [OF m]
  show ?thesis
  proof (cases r1)
    case (Inl e)
    then have "s' = s1 \<and> r = Inl e"
      using assms pos m by (auto simp: trial_body_def Let_def)
    then show ?thesis using mc by auto
  next
    case (Inr u1)
    then have c1: "full_data_calls (solver_log s1) = full_data_calls (solver_log s) @ [(v1, v2)]"
      using mc by auto
    define imagename where
      "imagename = image_name (py_int (float_log10 x v1)) (py_int (float_log10 x v2))"
    obtain r2 s2 where e: "exportimage imagename True s1 = (r2, s2)"
      by (cases "exportimage imagename True s1") auto
    have l2: "solver_log s2 = solver_log s1" using exportimage_log [OF e] .
    show ?thesis
    proof (cases r2)
      case (Inl e2)
      then have "s' = s2"
        using assms pos m Inr e by (auto simp: trial_body_def Let_def imagename_def)
      then show ?thesis using c1 l2 assms pos m Inr e Inl
        by (auto simp: trial_body_def Let_def imagename_def)
    next
      case r2: (Inr u2)
      obtain r3 s3 where
        c: "computegridmse x v1 v2 (a_maxiter a) (a_eps a) (a_clean_box a) s2 = (r3, s3)"
        by (cases "computegridmse x v1 v2 (a_maxiter a) (a_eps a) (a_clean_box a) s2") auto
      have c3: "full_data_calls (solver_log s3) = full_data_calls (solver_log s) @ [(v1, v2)]"
        using computegridmse_calls [OF c] c1 l2 by simp
      show ?thesis
      proof (cases r3)
        case (Inl e3)
        then have "s' = s3"
          using assms pos m Inr e r2 c by (auto simp: trial_body_def Let_def imagename_def)
        then show ?thesis using c3 by simp
      next
        case (Inr mse)
        then have "solver_log s' = solver_log s3"
          using assms pos m \<open>r1 = Inr u1\<close> e r2 c
          by (auto simp: trial_body_def Let_def imagename_def print_to_log
                   split: if_splits sum.splits)
        then show ?thesis using c3 by simp
      qed
    qed
  qed
qed

lemma inner_loop_calls:
  assumes "inner_loop x a (map F ls) (F v2) ks acc s = (r, s')"
    and "\<forall>k \<in> set ks. k < length ls"
  shows "\<exists>n \<le> length ks.
           full_data_calls (solver_log s')
             = full_data_calls (solver_log s) @ take n (map (\<lambda>k. (ls ! k, v2)) ks)
           \<and> ((\<exists>acc'. r = Inr acc') \<longrightarrow> n = length ks)"
  using assms
proof (induction ks arbitrary: acc s)
  case Nil
  then show ?case by simp
next
  case (Cons k ks)
  have k: "map F ls ! k = F (ls ! k)" using Cons.prems(2) by simp
  obtain rb s1 where b: "trial_body x a (F (ls ! k)) (F v2) s = (rb, s1)"
    by (cases "trial_body x a (F (ls ! k)) (F v2) s") auto
  note bc = trial_body_calls [OF b]
  show ?case
  proof (cases rb)
    case (Inl e)
    then have res: "s' = s1" "r = Inl e"
      using Cons.prems(1) b by (simp_all add: k)
    from bc show ?thesis
    proof (elim conjE disjE)
      assume "full_data_calls (solver_log s1) = full_data_calls (solver_log s)"
      then show ?thesis using res by (intro exI [of _ 0]) simp
    next
      assume "full_data_calls (solver_log s1) = full_data_calls (solver_log s) @ [(ls ! k, v2)]"
      then show ?thesis using res by (intro exI [of _ 1]) simp
    qed
  next
    case (Inr t)
    then have r: "inner_loop x a (map F ls) (F v2) ks (acc @ [t]) s1 = (r, s')"
      using Cons.prems(1) b by (simp add: k)
    have c1: "full_data_calls (solver_log s1) = full_data_calls (solver_log s) @ [(ls ! k, v2)]"
      using bc Inr by auto
    have "\<forall>k \<in> set ks. k < length ls" using Cons.prems(2) by simp
    from Cons.IH [OF r this] obtain n where
      n: "n \<le> length ks"
         "full_data_calls (solver_log s')
            = full_data_calls (solver_log s1) @ take n (map (\<lambda>k. (ls ! k, v2)) ks)"
         "(\<exists>acc'. r = Inr acc') \<longrightarrow> n = length ks"
      by blast
    show ?thesis using n c1 by (intro exI [of _ "Suc n"]) simp
  qed
qed

lemma outer_loop_calls:
  assumes "outer_loop x a (map F ls) (map F ts) js acc s = (r, s')"
    and "\<forall>j \<in> set js. j < length ts"
  shows "\<exists>n. full_data_calls (solver_log s')
               = full_data_calls (solver_log s)
                 @ take n (concat (map (\<lambda>j. map (\<lambda>k. (ls ! k, ts ! j)) (rev [0..<length ls])) js))
             \<and> ((\<exists>acc'. r = Inr acc') \<longrightarrow>
                   full_data_calls (solver_log s')
                     = full_data_calls (solver_log s)
                       @ concat (map (\<lambda>j. map (\<lambda>k. (ls ! k, ts ! j)) (rev [0..<length ls])) js))"
  using assms
proof (induction js arbitrary: acc s)
  case Nil
  then show ?case by simp
next
  case (Cons j js)
  let ?row = "map (\<lambda>k. (ls ! k, ts ! j)) (rev [0..<length ls])"
  let ?rest = "concat (map (\<lambda>j. map (\<lambda>k. (ls ! k, ts ! j)) (rev [0..<length ls])) js)"
  have j: "map F ts ! j = F (ts ! j)" using Cons.prems(2) by simp
  obtain ri s1 where
    i: "inner_loop x a (map F ls) (F (ts ! j)) (rev [0..<length ls]) acc s = (ri, s1)"
    by (cases "inner_loop x a (map F ls) (F (ts ! j)) (rev [0..<length ls]) acc s") auto
  have "\<forall>k \<in> set (rev [0..<length ls]). k < length ls" by simp
  from inner_loop_calls [OF i this] obtain n1 where
    n1: "n1 \<le> length ?row"
        "full_data_calls (solver_log s1) = full_data_calls (solver_log s) @ take n1 ?row"
        "(\<exists>acc'. ri = Inr acc') \<longrightarrow> n1 = length ?row"
    by auto
  show ?case
  proof (cases ri)
    case (Inl e)
    then have res: "s' = s1" "r = Inl e"
      using Cons.prems(1) i by (simp_all add: j)
    have "take n1 ?row = take n1 (?row @ ?rest)" using n1(1) by simp
    then have "full_data_calls (solver_log s')
                 = full_data_calls (solver_log s) @ take n1 (?row @ ?rest)"
      using n1(2) res by simp
    then show ?thesis using res by (intro exI [of _ n1]) simp
  next
    case (Inr acc1)
    then have r: "outer_loop x a (map F ls) (map F ts) js acc1 s1 = (r, s')"
      using Cons.prems(1) i by (simp add: j)
    have full1: "full_data_calls (solver_log s1) = full_data_calls (solver_log s) @ ?row"
      using n1 Inr by simp
    have "\<forall>j \<in> set js. j < length ts" using Cons.prems(2) by simp
    from Cons.IH [OF r this] obtain n2 where
      n2: "full_data_calls (solver_log s') = full_data_calls (solver_log s1) @ take n2 ?rest"
          "(\<exists>acc'. r = Inr acc') \<longrightarrow>
             full_data_calls (solver_log s') = full_data_calls (solver_log s1) @ ?rest"
      by blast
    have "full_data_calls (solver_log s')
            = full_data_calls (solver_log s) @ take (length ?row + n2) (?row @ ?rest)"
      using n2(1) full1 by simp
    moreover have "(\<exists>acc'. r = Inr acc') \<longrightarrow>
             full_data_calls (solver_log s') = full_data_calls (solver_log s) @ ?row @ ?rest"
      using n2(2) full1 by simp
    ultimately show ?thesis by (intro exI [of _ "length ?row + n2"]) simp
  qed
qed

lemma cv_sweep_stages:
  assumes "cv_sweep x l1_list ltsv_list num_fold imagepolicy summarize datafile maxiter eps
             clean_box s = (r, s')"
  shows "(s' = s \<and> (\<exists>e. r = Inl e))
         \<or> (\<exists>e. initializecv x num_fold
                   (print_to (if datafile \<noteq> None then Some ''cvresult.dat'' else None)
                      ''# L1, Ltsv, MSE''
                      (open_w (if datafile \<noteq> None then Some ''cvresult.dat'' else None) s))
                 = (Inl e, s') \<and> r = Inl e)
         \<or> (\<exists>s2 ro s3.
               initializecv x num_fold
                   (print_to (if datafile \<noteq> None then Some ''cvresult.dat'' else None)
                      ''# L1, Ltsv, MSE''
                      (open_w (if datafile \<noteq> None then Some ''cvresult.dat'' else None) s))
                 = (Inr (), s2)
               \<and> outer_loop x
                    \<lparr>a_summarize = summarize,
                      a_file = (if datafile \<noteq> None then Some ''cvresult.dat'' else None),
                      a_maxiter = maxiter, a_eps = eps, a_clean_box = clean_box\<rparr>
                    (sorted_list (numpy_asarray (repr_float x) l1_list))
                    (sorted_list (numpy_asarray (repr_float x) ltsv_list))
                    [0..<len (numpy_asarray (repr_float x) ltsv_list)] [] s2 = (ro, s3)
               \<and> ((\<exists>e. ro = Inl e \<and> r = Inl e \<and> s' = s3)
                   \<or> (\<exists>trials. ro = Inr trials \<and> r = Inr trials \<and> s' = finalizecv s3)))"
proof -
  define f where "f = (if datafile \<noteq> None then Some ''cvresult.dat'' else None)"
  define a where "a = \<lparr>a_summarize = summarize, a_file = f, a_maxiter = maxiter,
                           a_eps = eps, a_clean_box = clean_box\<rparr>"
  define sl where "sl = sorted_list (numpy_asarray (repr_float x) l1_list)"
  define st where "st = sorted_list (numpy_asarray (repr_float x) ltsv_list)"
  define s1 where "s1 = print_to f ''# L1, Ltsv, MSE'' (open_w f s)"
  have "(s' = s \<and> (\<exists>e. r = Inl e))
         \<or> (\<exists>e. initializecv x num_fold s1 = (Inl e, s') \<and> r = Inl e)
         \<or> (\<exists>s2 ro s3.
               initializecv x num_fold s1 = (Inr (), s2)
               \<and> outer_loop x a sl st [0..<len (numpy_asarray (repr_float x) ltsv_list)] [] s2
                    = (ro, s3)
               \<and> ((\<exists>e. ro = Inl e \<and> r = Inl e \<and> s' = s3)
                   \<or> (\<exists>trials. ro = Inr trials \<and> r = Inr trials \<and> s' = finalizecv s3)))"
    using assms
    unfolding cv_sweep_def Let_def f_def [symmetric] a_def [symmetric] sl_def [symmetric]
      st_def [symmetric] s1_def [symmetric]
    by (auto split: if_splits prod.splits sum.splits)
  then show ?thesis
    unfolding f_def a_def sl_def st_def s1_def .
qed

lemma cv_sweep_calls:
  assumes "cv_sweep x (map Num l1s) (map Num ltsvs) num_fold imagepolicy summarize datafile
             maxiter eps clean_box s = (r, s')"
  shows "\<exists>n. full_data_calls (solver_log s')
               = full_data_calls (solver_log s)
                 @ take n (concat (map (\<lambda>Ltsv. map (\<lambda>L1. (L1, Ltsv)) (rev (sort l1s)))
                                    (sort ltsvs)))
             \<and> ((\<exists>trials. r = Inr trials) \<longrightarrow>
                   full_data_calls (solver_log s')
                     = full_data_calls (solver_log s)
                       @ concat (map (\<lambda>Ltsv. map (\<lambda>L1. (L1, Ltsv)) (rev (sort l1s)))
                                   (sort ltsvs)))"
proof -
  let ?order = "concat (map (\<lambda>Ltsv. map (\<lambda>L1. (L1, Ltsv)) (rev (sort l1s))) (sort ltsvs))"
  let ?f = "if datafile \<noteq> None then Some ''cvresult.dat'' else None"
  let ?s1 = "print_to ?f ''# L1, Ltsv, MSE'' (open_w ?f s)"
  have l1: "solver_log ?s1 = solver_log s" by (simp only: print_to_log open_w_log)
  have sl: "sorted_list (numpy_asarray (repr_float x) (map Num l1s)) = map F (sort l1s)"
    by (simp only: numpy_asarray_Num sorted_list_FloatArr)
  have st: "sorted_list (numpy_asarray (repr_float x) (map Num ltsvs)) = map F (sort ltsvs)"
    by (simp only: numpy_asarray_Num sorted_list_FloatArr)
  have n: "len (numpy_asarray (repr_float x) (map Num ltsvs)) = length (sort ltsvs)"
    by (simp add: numpy_asarray_Num)
  have ord: "concat (map (\<lambda>j. map (\<lambda>k. (sort l1s ! k, sort ltsvs ! j))
                                  (rev [0..<length (sort l1s)])) [0..<length (sort ltsvs)])
               = ?order"
    by (rule nth_pairs_concat)
  from cv_sweep_stages [OF assms] show ?thesis
  proof (elim disjE exE conjE)
    assume "s' = s"
    fix e assume "r = Inl e"
    then show ?thesis using \<open>s' = s\<close> by (intro exI [of _ 0]) simp
  next
    fix e assume "initializecv x num_fold ?s1 = (Inl e, s')" and r: "r = Inl e"
    from initializecv_log [OF this(1)] l1 have "solver_log s' = solver_log s" by simp
    then show ?thesis using r by (intro exI [of _ 0]) simp
  next
    fix s2 ro s3 e
    assume i: "initializecv x num_fold ?s1 = (Inr (), s2)"
      and o: "outer_loop x
                \<lparr>a_summarize = summarize, a_file = ?f, a_maxiter = maxiter, a_eps = eps,
                   a_clean_box = clean_box\<rparr>
                (sorted_list (numpy_asarray (repr_float x) (map Num l1s)))
                (sorted_list (numpy_asarray (repr_float x) (map Num ltsvs)))
                [0..<len (numpy_asarray (repr_float x) (map Num ltsvs))] [] s2 = (ro, s3)"
      and res: "ro = Inl e" "r = Inl e" "s' = s3"
    have l2: "solver_log s2 = solver_log s" using initializecv_log [OF i] l1 by simp
    have o': "outer_loop x
                \<lparr>a_summarize = summarize, a_file = ?f, a_maxiter = maxiter, a_eps = eps,
                   a_clean_box = clean_box\<rparr>
                (map F (sort l1s)) (map F (sort ltsvs)) [0..<length (sort ltsvs)] [] s2 = (ro, s3)"
      using o by (simp only: sl st n)
    have "\<forall>j \<in> set [0..<length (sort ltsvs)]. j < length (sort ltsvs)" by simp
    from outer_loop_calls [OF o' this] obtain m where
      "full_data_calls (solver_log s3) = full_data_calls (solver_log s2) @ take m ?order"
      by (auto simp only: ord)
    then show ?thesis using res l2 by (intro exI [of _ m]) simp
  next
    fix s2 ro s3 trials
    assume i: "initializecv x num_fold ?s1 = (Inr (), s2)"
      and o: "outer_loop x
                \<lparr>a_summarize = summarize, a_file = ?f, a_maxiter = maxiter, a_eps = eps,
                   a_clean_box = clean_box\<rparr>
                (sorted_list (numpy_asarray (repr_float x) (map Num l1s)))
                (sorted_list (numpy_asarray (repr_float x) (map Num ltsvs)))
                [0..<len (numpy_asarray (repr_float x) (map Num ltsvs))] [] s2 = (ro, s3)"
      and res: "ro = Inr trials" "r = Inr trials" "s' = finalizecv s3"
    have l2: "solver_log s2 = solver_log s" using initializecv_log [OF i] l1 by simp
    have o': "outer_loop x
                \<lparr>a_summarize = summarize, a_file = ?f, a_maxiter = maxiter, a_eps = eps,
                   a_clean_box = clean_box\<rparr>
                (map F (sort l1s)) (map F (sort ltsvs)) [0..<length (sort ltsvs)] [] s2 = (ro, s3)"
      using o by (simp only: sl st n)
    have "\<forall>j \<in> set [0..<length (sort ltsvs)]. j < length (sort ltsvs)" by simp
    from outer_loop_calls [OF o' this] res(1) have
      "full_data_calls (solver_log s3) = full_data_calls (solver_log s2) @ ?order"
      by (auto simp only: ord)
    then have full: "full_data_calls (solver_log s') = full_data_calls (solver_log s) @ ?order"
      using res l2 by (simp add: finalizecv_def)
    show ?thesis using full by (intro exI [of _ "length ?order"]) simp
  qed
qed

lemma cv_sweep_trials_order:
  assumes "cv_sweep x (map Num l1s) (map Num ltsvs) num_fold imagepolicy summarize datafile
             maxiter eps clean_box s = (Inr trials, s')"
  shows "map (\<lambda>t. (t_L1 t, t_Ltsv t)) trials
           = concat (map (\<lambda>Ltsv. map (\<lambda>L1. (L1, Ltsv)) (rev (sort l1s))) (sort ltsvs))"
proof -
  let ?sl = "map F (sort l1s)" and ?st = "map F (sort ltsvs)"
  have sl: "sorted_list (numpy_asarray (repr_float x) (map Num l1s)) = ?sl"
    by (simp only: numpy_asarray_Num sorted_list_FloatArr)
  have st: "sorted_list (numpy_asarray (repr_float x) (map Num ltsvs)) = ?st"
    by (simp only: numpy_asarray_Num sorted_list_FloatArr)
  have n: "len (numpy_asarray (repr_float x) (map Num ltsvs)) = length ?st"
    by (simp add: numpy_asarray_Num)
  have "map (\<lambda>t. (F (t_L1 t), F (t_Ltsv t))) trials
          = concat (map (\<lambda>j. map (\<lambda>k. (?sl ! k, ?st ! j)) (rev [0..<length ?sl])) [0..<length ?st])"
    using cv_sweep_Inr [OF assms] by (simp only: sl st n)
  also have "\<dots> = concat (map (\<lambda>b. map (\<lambda>a. (a, b)) (rev ?sl)) ?st)"
    by (rule nth_pairs_concat)
  also have "\<dots> = map (\<lambda>(a, b). (F a, F b))
                      (concat (map (\<lambda>Ltsv. map (\<lambda>L1. (L1, Ltsv)) (rev (sort l1s))) (sort ltsvs)))"
    by (simp add: map_concat rev_map comp_def)
  finally show ?thesis by (rule F_pairs_inj)
qed

lemma example_partial_sweep:
  "fst (cv_sweep example_ext [Num 0, Num (1/100)] [Num (1/100)] 2 ''full''
          False None 50000 (1/100000) None example_imager) = Inl ValueError"
  "full_data_calls (solver_log (snd (cv_sweep example_ext [Num 0, Num (1/100)] [Num (1/100)] 2
          ''full'' False None 50000 (1/100000) None example_imager))) = [(1/100, 1/100)]"
  by (simp_all add: example_simps full_data_calls_def)

section \<open>The order of the sweep\<close>

text \<open>
  Claim C2. For numeric candidate lists, whatever their order, \<^verbatim>\<open>cvforgridvis\<close> visits the
  trials with \<open>Ltsv\<close> ascending in the outer loop and \<open>L1\<close> descending in the inner loop,
  both taken from the candidates sorted by value. The visits are read off the solver:
  the invocations on the full data, one per trial, are made in this order. When the
  sweep raises part-way they are a beginning of it; when it completes they are all of
  it, and the trials it has recorded are in the same order. For \<open>Ltsv\<close> candidates
  \<open>[1e-2, 1e-1]\<close> and \<open>L1\<close> candidates \<open>[1e-3, 1e-2]\<close> the order of the \<open>(L1, Ltsv)\<close> pairs
  is \<open>(1e-2, 1e-2), (1e-3, 1e-2), (1e-2, 1e-1), (1e-3, 1e-1)\<close> (the witness below).
\<close>

theorem sweep_order:
  assumes "cv_sweep x (map Num l1s) (map Num ltsvs) num_fold imagepolicy summarize datafile
             maxiter eps clean_box s = (r, s')"
  shows "(\<exists>n. full_data_calls (solver_log s')
               = full_data_calls (solver_log s)
                 @ take n (concat (map (\<lambda>Ltsv. map (\<lambda>L1. (L1, Ltsv)) (rev (sort l1s)))
                                    (sort ltsvs))))
         \<and> (\<forall>trials. r = Inr trials \<longrightarrow>
               map (\<lambda>t. (t_L1 t, t_Ltsv t)) trials
                 = concat (map (\<lambda>Ltsv. map (\<lambda>L1. (L1, Ltsv)) (rev (sort l1s))) (sort ltsvs))
               \<and> full_data_calls (solver_log s')
                   = full_data_calls (solver_log s)
                     @ concat (map (\<lambda>Ltsv. map (\<lambda>L1. (L1, Ltsv)) (rev (sort l1s)))
                                 (sort ltsvs)))"
proof -
  let ?order = "concat (map (\<lambda>Ltsv. map (\<lambda>L1. (L1, Ltsv)) (rev (sort l1s))) (sort ltsvs))"
  from cv_sweep_calls [OF assms] obtain n where
    n: "full_data_calls (solver_log s') = full_data_calls (solver_log s) @ take n ?order" and
    c: "(\<exists>trials. r = Inr trials) \<longrightarrow>
          full_data_calls (solver_log s') = full_data_calls (solver_log s) @ ?order"
    by blast
  have t: "map (\<lambda>t. (t_L1 t, t_Ltsv t)) trials = ?order" if "r = Inr trials" for trials
    using cv_sweep_trials_order [of x l1s ltsvs num_fold imagepolicy summarize datafile maxiter
            eps clean_box s trials s'] assms that by simp
  show ?thesis
  proof (intro conjI allI impI)
    show "\<exists>n. full_data_calls (solver_log s')
               = full_data_calls (solver_log s) @ take n ?order"
      using n by (rule exI)
    show "map (\<lambda>t. (t_L1 t, t_Ltsv t)) trials = ?order" if "r = Inr trials" for trials
      using that by (rule t)
    show "full_data_calls (solver_log s') = full_data_calls (solver_log s) @ ?order"
      if "r = Inr trials" for trials
      using c that by blast
  qed
qed

text \<open>The candidates of the example, given in the order of the specification: the sweep
  completes. Then the \<open>L1\<close> candidates \<open>[0, 1e-2]\<close>: the sweep runs the trial of \<open>1e-2\<close>
  and raises at \<open>0\<close>.\<close>

theorem sweep_order_witness:
  "map (\<lambda>t. (t_L1 t, t_Ltsv t))
       (projr (fst (cv_sweep example_ext (map Num [1/1000, 1/100]) (map Num [1/100, 1/10]) 2
                      ''full'' False None 50000 (1/100000) None example_imager)))
     = [(1/100, 1/100), (1/1000, 1/100), (1/100, 1/10), (1/1000, 1/10)]
   \<and> full_data_calls (solver_log (snd (cv_sweep example_ext (map Num [1/1000, 1/100])
                      (map Num [1/100, 1/10]) 2 ''full'' False None 50000 (1/100000) None
                      example_imager)))
     = [(1/100, 1/100), (1/1000, 1/100), (1/100, 1/10), (1/1000, 1/10)]
   \<and> fst (cv_sweep example_ext (map Num [0, 1/100]) (map Num [1/100]) 2 ''full'' False None
            50000 (1/100000) None example_imager) = Inl ValueError
   \<and> (\<exists>n. full_data_calls (solver_log (snd (cv_sweep example_ext (map Num [0, 1/100])
                      (map Num [1/100]) 2 ''full'' False None 50000 (1/100000) None
                      example_imager)))
           = take n [(1/100, 1/100), (0, 1/100)])
   \<and> full_data_calls (solver_log (snd (cv_sweep example_ext (map Num [0, 1/100])
                      (map Num [1/100]) 2 ''full'' False None 50000 (1/100000) None
                      example_imager)))
     = [(1/100, 1/100)]"
proof -
  let ?run = "cv_sweep example_ext (map Num [1/1000, 1/100]) (map Num [1/100, 1/10]) 2
                ''full'' False None 50000 (1/100000) None example_imager"
  let ?run2 = "cv_sweep example_ext (map Num [0, 1/100]) (map Num [1/100]) 2
                ''full'' False None 50000 (1/100000) None example_imager"
  have e: "full_data_calls (solver_log example_imager) = []"
    by (simp add: example_imager_def full_data_calls_def)
  have "fst ?run = Inr (projr (fst ?run))"
    using example_sweep_trials by simp
  then have run: "?run = (Inr (projr (fst ?run)), snd ?run)"
    by (metis prod.collapse)
  have a: "map (\<lambda>t. (t_L1 t, t_Ltsv t)) (projr (fst ?run))
             = [(1/100, 1/100), (1/1000, 1/100), (1/100, 1/10), (1/1000, 1/10)]"
    and b: "full_data_calls (solver_log (snd ?run))
             = [(1/100, 1/100), (1/1000, 1/100), (1/100, 1/10), (1/1000, 1/10)]"
    using sweep_order [OF run] e by simp_all
  have run2: "?run2 = (fst ?run2, snd ?run2)" by simp
  have c: "\<exists>n. full_data_calls (solver_log (snd ?run2)) = take n [(1/100, 1/100), (0, 1/100)]"
    using sweep_order [OF run2] e by simp
  have d: "fst ?run2 = Inl ValueError"
    and f: "full_data_calls (solver_log (snd ?run2)) = [(1/100, 1/100)]"
    using example_partial_sweep by simp_all
  show ?thesis using a b c d f by (intro conjI)
qed

section \<open>The selection and the returned record\<close>

lemma cvforgridvis_Inr:
  assumes "cvforgridvis x l1_list ltsv_list num_fold imageprefix imagepolicy summarize figfile
             datafile maxiter eps clean_box s = (Inr r, s')"
  shows "\<exists>trials s1 k s2.
           cv_sweep x l1_list ltsv_list num_fold imagepolicy summarize datafile maxiter eps
             clean_box s = (Inr trials, s1)
           \<and> numpy_argmin (map t_mse trials) = Inr k
           \<and> shutil_copy2 (t_image (trials ! k)) (imageprefix @ ''.'' @ imagesuffix) s1
               = (Inr (), s2)
           \<and> r = [''L1'' \<mapsto> DFloat (t_L1 (trials ! k)), ''Ltsv'' \<mapsto> DFloat (t_Ltsv (trials ! k))]
           \<and> (if imagepolicy = ''full'' then s' = s2
               else remove_images (map t_image trials) s2 = (Inr (), s'))"
proof -
  obtain trials s1 where
    sw: "cv_sweep x l1_list ltsv_list num_fold imagepolicy summarize datafile maxiter eps
           clean_box s = (Inr trials, s1)"
    using assms by (auto simp: cvforgridvis_def split: prod.splits sum.splits)
  obtain k s2 where sc: "cv_select_copy imageprefix trials s1 = (Inr k, s2)"
    using assms sw by (auto simp: cvforgridvis_def split: prod.splits sum.splits)
  have am: "numpy_argmin (map t_mse trials) = Inr k"
    and cp: "shutil_copy2 (t_image (trials ! k)) (imageprefix @ ''.'' @ imagesuffix) s1 = (Inr (), s2)"
    using sc by (auto simp: cv_select_copy_def split: prod.splits sum.splits)
  have r: "r = [''L1'' \<mapsto> DFloat (t_L1 (trials ! k)), ''Ltsv'' \<mapsto> DFloat (t_Ltsv (trials ! k))]"
    using assms sw sc
    by (auto simp: cvforgridvis_def Let_def split: prod.splits sum.splits if_splits)
  have fin: "if imagepolicy = ''full'' then s' = s2
             else remove_images (map t_image trials) s2 = (Inr (), s')"
    using assms sw sc
    by (auto simp: cvforgridvis_def Let_def split: prod.splits sum.splits if_splits)
  show ?thesis using sw am cp r fin by blast
qed

text \<open>
  Claim C1. Whenever a search completes, the \<open>L1\<close> and \<open>Ltsv\<close> it returns are those of
  the trial with the smallest recorded mean MSE, and among trials with that smallest
  value the one visited first: every earlier trial has a strictly larger MSE. (This
  holds for every completed search, with or without cross validation.) For the trial
  errors of the example, \<open>0.5, 0.3, 0.9, 0.4\<close> in sweep order, the best is
  \<open>L1 = 1e-3, Ltsv = 1e-2\<close> (the witness below).
\<close>

theorem best_is_first_minimum:
  assumes "cvforgridvis x l1_list ltsv_list num_fold imageprefix imagepolicy summarize figfile
             datafile maxiter eps clean_box s = (Inr r, s')"
  shows "\<exists>trials s1 k.
           cv_sweep x l1_list ltsv_list num_fold imagepolicy summarize datafile maxiter eps
             clean_box s = (Inr trials, s1)
           \<and> k < length trials
           \<and> r ''L1'' = Some (DFloat (t_L1 (trials ! k)))
           \<and> r ''Ltsv'' = Some (DFloat (t_Ltsv (trials ! k)))
           \<and> (\<forall>j < length trials. t_mse (trials ! k) \<le> t_mse (trials ! j))
           \<and> (\<forall>j < k. t_mse (trials ! k) < t_mse (trials ! j))"
proof -
  from cvforgridvis_Inr [OF assms] obtain trials s1 k where
    sw: "cv_sweep x l1_list ltsv_list num_fold imagepolicy summarize datafile maxiter eps
           clean_box s = (Inr trials, s1)" and
    am: "numpy_argmin (map t_mse trials) = Inr k" and
    r: "r = [''L1'' \<mapsto> DFloat (t_L1 (trials ! k)), ''Ltsv'' \<mapsto> DFloat (t_Ltsv (trials ! k))]"
    by blast
  from numpy_argmin_props [OF am] have
    k: "k < length trials" and
    le: "\<forall>j < length trials. t_mse (trials ! k) \<le> t_mse (trials ! j)" and
    lt: "\<forall>j < k. t_mse (trials ! k) < t_mse (trials ! j)"
    by auto
  have "r ''L1'' = Some (DFloat (t_L1 (trials ! k)))"
    and "r ''Ltsv'' = Some (DFloat (t_Ltsv (trials ! k)))"
    by (simp_all add: r)
  then show ?thesis using sw k le lt by blast
qed


text \<open>The example run: the recorded errors are those of the specification's table, and
  the record returned names \<open>L1 = 1e-3, Ltsv = 1e-2\<close>, the second trial visited.\<close>

theorem best_is_first_minimum_witness:
  "fst (cvforgridvis example_ext [Num (1/1000), Num (1/100)] [Num (1/100), Num (1/10)] 2
          ''image'' ''full'' False None None 50000 (1/100000) None example_imager)
     = Inr [''L1'' \<mapsto> DFloat (1/1000), ''Ltsv'' \<mapsto> DFloat (1/100)]
   \<and> (\<exists>(trials :: trial list) k.
         map (\<lambda>t. (t_L1 t, t_Ltsv t, t_mse t)) trials
           = [(1/100, 1/100, 5/10), (1/1000, 1/100, 3/10), (1/100, 1/10, 9/10),
              (1/1000, 1/10, 4/10)]
         \<and> k < length trials
         \<and> DFloat (t_L1 (trials ! k)) = DFloat (1/1000)
         \<and> DFloat (t_Ltsv (trials ! k)) = DFloat (1/100)
         \<and> (\<forall>j < length trials. t_mse (trials ! k) \<le> t_mse (trials ! j))
         \<and> (\<forall>j < k. t_mse (trials ! k) < t_mse (trials ! j)))"
proof -
  let ?run = "cvforgridvis example_ext [Num (1/1000), Num (1/100)] [Num (1/100), Num (1/10)] 2
                ''image'' ''full'' False None None 50000 (1/100000) None example_imager"
  let ?r = "[''L1'' \<mapsto> DFloat (1/1000), ''Ltsv'' \<mapsto> DFloat (1/100)]"
  have f: "fst ?run = Inr ?r" by (rule example_run_full)
  then have run: "?run = (Inr ?r, snd ?run)" by (metis prod.collapse)
  from best_is_first_minimum [OF run] obtain trials s1 k where
    sw: "cv_sweep example_ext [Num (1/1000), Num (1/100)] [Num (1/100), Num (1/10)] 2 ''full''
           False None 50000 (1/100000) None example_imager = (Inr trials, s1)" and
    k: "k < length trials" "?r ''L1'' = Some (DFloat (t_L1 (trials ! k)))"
       "?r ''Ltsv'' = Some (DFloat (t_Ltsv (trials ! k)))"
       "\<forall>j < length trials. t_mse (trials ! k) \<le> t_mse (trials ! j)"
       "\<forall>j < k. t_mse (trials ! k) < t_mse (trials ! j)"
    by blast
  have m: "map (\<lambda>t. (t_L1 t, t_Ltsv t, t_mse t)) trials
          = [(1/100, 1/100, 5/10), (1/1000, 1/100, 3/10), (1/100, 1/10, 9/10),
             (1/1000, 1/10, 4/10)]"
    using example_sweep_trials sw by simp
  have b: "DFloat (t_L1 (trials ! k)) = DFloat (1/1000)"
    "DFloat (t_Ltsv (trials ! k)) = DFloat (1/100)"
    using k(2,3) by simp_all
  have "\<exists>(trials :: trial list) k.
         map (\<lambda>t. (t_L1 t, t_Ltsv t, t_mse t)) trials
           = [(1/100, 1/100, 5/10), (1/1000, 1/100, 3/10), (1/100, 1/10, 9/10),
              (1/1000, 1/10, 4/10)]
         \<and> k < length trials
         \<and> DFloat (t_L1 (trials ! k)) = DFloat (1/1000)
         \<and> DFloat (t_Ltsv (trials ! k)) = DFloat (1/100)
         \<and> (\<forall>j < length trials. t_mse (trials ! k) \<le> t_mse (trials ! j))
         \<and> (\<forall>j < k. t_mse (trials ! k) < t_mse (trials ! j))"
  proof (rule exI [of _ trials], rule exI [of _ k], intro conjI)
    show "map (\<lambda>t. (t_L1 t, t_Ltsv t, t_mse t)) trials
          = [(1/100, 1/100, 5/10), (1/1000, 1/100, 3/10), (1/100, 1/10, 9/10),
             (1/1000, 1/10, 4/10)]" by (rule m)
    show "k < length trials" by (rule k(1))
    show "DFloat (t_L1 (trials ! k)) = DFloat (1/1000)" by (rule b(1))
    show "DFloat (t_Ltsv (trials ! k)) = DFloat (1/100)" by (rule b(2))
    show "\<forall>j < length trials. t_mse (trials ! k) \<le> t_mse (trials ! j)" by (rule k(4))
    show "\<forall>j < k. t_mse (trials ! k) < t_mse (trials ! j)" by (rule k(5))
  qed
  with f show ?thesis by (rule conjI)
qed

text \<open>
  Claim C4 against the code. The docstring of \<^verbatim>\<open>cvforgridvis\<close> promises a dictionary with
  the keys \<^verbatim>\<open>L1\<close>, \<^verbatim>\<open>Ltsv\<close> and \<^verbatim>\<open>image\<close>; the \<^verbatim>\<open>return\<close> statement builds one with
  \<^verbatim>\<open>L1\<close> and \<^verbatim>\<open>Ltsv\<close> only. Every completed search returns the winning \<open>L1\<close> and
  \<open>Ltsv\<close> and no entry under \<^verbatim>\<open>image\<close>.
\<close>

theorem result_record_has_no_image:
  assumes "cvforgridvis x l1_list ltsv_list num_fold imageprefix imagepolicy summarize figfile
             datafile maxiter eps clean_box s = (Inr r, s')"
  shows "r ''image'' = None \<and> dom r = {''L1'', ''Ltsv''}"
proof -
  from cvforgridvis_Inr [OF assms] obtain trials :: "trial list" and k where
    "r = [''L1'' \<mapsto> DFloat (t_L1 (trials ! k)), ''Ltsv'' \<mapsto> DFloat (t_Ltsv (trials ! k))]"
    by auto
  then show ?thesis by auto
qed

theorem result_record_has_no_image_witness:
  "fst (cvforgridvis example_ext [Num (1/1000), Num (1/100)] [Num (1/100), Num (1/10)] 2
          ''image'' ''best'' True None (Some ''out.dat'') 50000 (1/100000) None example_imager)
     = Inr [''L1'' \<mapsto> DFloat (1/1000), ''Ltsv'' \<mapsto> DFloat (1/100)]
   \<and> [''L1'' \<mapsto> DFloat (1/1000), ''Ltsv'' \<mapsto> DFloat (1/100)] ''image'' = None
   \<and> dom [''L1'' \<mapsto> DFloat (1/1000), ''Ltsv'' \<mapsto> DFloat (1/100)] = {''L1'', ''Ltsv''}"
proof -
  let ?run = "cvforgridvis example_ext [Num (1/1000), Num (1/100)] [Num (1/100), Num (1/10)] 2
                ''image'' ''best'' True None (Some ''out.dat'') 50000 (1/100000) None
                example_imager"
  let ?r = "[''L1'' \<mapsto> DFloat (1/1000), ''Ltsv'' \<mapsto> DFloat (1/100)]"
  have f: "fst ?run = Inr ?r" by (rule example_run_best)
  then have run: "?run = (Inr ?r, snd ?run)" by (metis prod.collapse)
  show ?thesis using f result_record_has_no_image [OF run] by blast
qed

section \<open>Rejected arguments\<close>

text \<open>
  Claim C5 against the code. An \<^verbatim>\<open>imagepolicy\<close> other than \<^verbatim>\<open>best\<close> and \<^verbatim>\<open>full\<close>, or a
  candidate list with an element that makes the array's dtype \<^verbatim>\<open>object\<close>, stops
  \<^verbatim>\<open>cvforgridvis\<close> at once, with the imager and the solver log untouched; but what is
  raised is \<^verbatim>\<open>NameError\<close>, because the name \<^verbatim>\<open>ArgumentError\<close> that the three \<^verbatim>\<open>raise\<close>
  statements use is defined nowhere in the module.
\<close>

theorem invalid_arguments_raise_NameError:
  assumes "(imagepolicy \<noteq> ''best'' \<and> imagepolicy \<noteq> ''full'')
           \<or> Obj \<in> set l1_list \<or> Obj \<in> set ltsv_list"
  shows "cvforgridvis x l1_list ltsv_list num_fold imageprefix imagepolicy summarize figfile
           datafile maxiter eps clean_box s = (Inl NameError, s)"
proof -
  have "cv_sweep x l1_list ltsv_list num_fold imagepolicy summarize datafile maxiter eps
          clean_box s = (Inl NameError, s)"
    using assms by (auto simp: cv_sweep_def Let_def numpy_asarray_Obj)
  then show ?thesis by (simp add: cvforgridvis_def)
qed

text \<open>\<^verbatim>\<open>cvforgridvis([None], [0.01])\<close> on the example imager.\<close>

theorem invalid_arguments_raise_NameError_witness:
  "cvforgridvis example_ext [Obj] [Num (1/100)] 10 ''image'' ''full'' True None None 50000
     (1/100000) None example_imager = (Inl NameError, example_imager)
   \<and> solver_log example_imager = []"
  using invalid_arguments_raise_NameError
          [of "''full''" "[Obj]" "[Num (1/100)]" example_ext 10 "''image''" True None None 50000
              "1/100000" None example_imager]
  by (simp add: example_imager_def)

section \<open>The files after a completed search\<close>

lemma shutil_copy2_Inr:
  "shutil_copy2 src dst s = (Inr u, s') \<longleftrightarrow>
     (\<exists>c. files s src = Some c \<and> src \<noteq> dst \<and> s' = s\<lparr>files := (files s)(dst \<mapsto> c)\<rparr>)"
  by (auto simp: shutil_copy2_def split: option.splits)

lemma canonical_not_data: "imageprefix @ ''.'' @ imagesuffix \<noteq> ''cvresult.dat''"
proof
  assume "imageprefix @ ''.'' @ imagesuffix = ''cvresult.dat''"
  then have "rev (imageprefix @ ''.'' @ imagesuffix) = rev ''cvresult.dat''" by simp
  then show False by (simp add: imagesuffix_def)
qed

text \<open>The stages of a completed search and what each leaves in the file store.\<close>

lemma cvforgridvis_files:
  assumes "cvforgridvis x l1_list ltsv_list num_fold imageprefix imagepolicy summarize figfile
             datafile maxiter eps clean_box s = (Inr r, s')"
  shows "\<exists>trials s1 k s2 c.
           cv_sweep x l1_list ltsv_list num_fold imagepolicy summarize datafile maxiter eps
             clean_box s = (Inr trials, s1)
           \<and> cv_select_copy imageprefix trials s1 = (Inr k, s2)
           \<and> k < length trials
           \<and> (\<forall>t \<in> set trials. trial_ok x t)
           \<and> sweep_files x (if datafile \<noteq> None then Some ''cvresult.dat'' else None)
                (print_to (if datafile \<noteq> None then Some ''cvresult.dat'' else None)
                   ''# L1, Ltsv, MSE''
                   (open_w (if datafile \<noteq> None then Some ''cvresult.dat'' else None) s))
                trials s1
           \<and> files s1 (t_image (trials ! k)) = Some c
           \<and> t_image (trials ! k) \<noteq> imageprefix @ ''.'' @ imagesuffix
           \<and> files s2 = (files s1)(imageprefix @ ''.'' @ imagesuffix \<mapsto> c)
           \<and> (imagepolicy = ''full'' \<longrightarrow> s' = s2)
           \<and> (imagepolicy = ''best'' \<longrightarrow>
                 remove_images (map t_image trials) s2 = (Inr (), s')
                 \<and> distinct (map t_image trials)
                 \<and> files s' = files s2 |` (- t_image ` set trials))"
proof -
  from cvforgridvis_Inr [OF assms] obtain trials s1 k s2 where
    sw: "cv_sweep x l1_list ltsv_list num_fold imagepolicy summarize datafile maxiter eps
           clean_box s = (Inr trials, s1)" and
    am: "numpy_argmin (map t_mse trials) = Inr k" and
    cp: "shutil_copy2 (t_image (trials ! k)) (imageprefix @ ''.'' @ imagesuffix) s1
           = (Inr (), s2)" and
    fin: "if imagepolicy = ''full'' then s' = s2
          else remove_images (map t_image trials) s2 = (Inr (), s')"
    by blast
  have sc: "cv_select_copy imageprefix trials s1 = (Inr k, s2)"
    using cp by (simp add: cv_select_copy_def am)
  have k: "k < length trials" using numpy_argmin_props [OF am] by simp
  from cv_sweep_Inr [OF sw] have
    pol: "imagepolicy = ''best'' \<or> imagepolicy = ''full''" and
    ok: "\<forall>t \<in> set trials. trial_ok x t" and
    sf: "sweep_files x (if datafile \<noteq> None then Some ''cvresult.dat'' else None)
                (print_to (if datafile \<noteq> None then Some ''cvresult.dat'' else None)
                   ''# L1, Ltsv, MSE''
                   (open_w (if datafile \<noteq> None then Some ''cvresult.dat'' else None) s))
                trials s1"
    by blast+
  from cp obtain c where
    c: "files s1 (t_image (trials ! k)) = Some c"
       "t_image (trials ! k) \<noteq> imageprefix @ ''.'' @ imagesuffix"
       "s2 = s1\<lparr>files := (files s1)(imageprefix @ ''.'' @ imagesuffix \<mapsto> c)\<rparr>"
    unfolding shutil_copy2_Inr by blast
  have f2: "files s2 = (files s1)(imageprefix @ ''.'' @ imagesuffix \<mapsto> c)"
    by (simp add: c(3))
  have full: "imagepolicy = ''full'' \<longrightarrow> s' = s2" using fin by simp
  have best: "imagepolicy = ''best'' \<longrightarrow>
                 remove_images (map t_image trials) s2 = (Inr (), s')
                 \<and> distinct (map t_image trials)
                 \<and> files s' = files s2 |` (- t_image ` set trials)"
  proof
    assume "imagepolicy = ''best''"
    then have rm: "remove_images (map t_image trials) s2 = (Inr (), s')" using fin by simp
    then show "remove_images (map t_image trials) s2 = (Inr (), s')
                 \<and> distinct (map t_image trials)
                 \<and> files s' = files s2 |` (- t_image ` set trials)"
      unfolding remove_images_Inr by simp
  qed
  show ?thesis using sw sc k ok sf c(1,2) f2 full best by blast
qed

lemma trial_image_not_data: "trial_ok x t \<Longrightarrow> t_image t \<noteq> ''cvresult.dat''"
  by (simp add: trial_ok_def image_name_not_data)

section \<open>The second example, evaluated\<close>

text \<open>A second example, with candidates that floats represent exactly: \<open>L1 \<in> {10, 100}\<close>,
  \<open>Ltsv = 10\<close>, two folds. Both trials have the mean error \<open>0.4\<close>, so the first one visited,
  \<open>L1 = 100\<close>, is the best.\<close>

lemma log10_vals_pos: "log 10 10 = 1" "log 10 100 = 2"
proof -
  have "log 10 ((10::real) ^ 2) = real 2" by (rule log_pow_cancel) simp_all
  then show "log 10 100 = 2" by simp
  show "log 10 10 = 1" by simp
qed

lemma py_int_vals_pos: "py_int 1 = 1" "py_int 2 = 2"
  using py_int_of_int [of 1] py_int_of_int [of 2] by simp_all

lemma example2_sweep_best:
  "fst (cv_sweep example_ext [Num 10, Num 100] [Num 10] 2 ''best''
          False (Some ''out.dat'') 50000 (1/100000) None example_imager)
     = Inr [\<lparr>t_L1 = 100, t_Ltsv = 10, t_mse = 4/10, t_image = ''L1_2_Ltsv_1.pickle''\<rparr>,
            \<lparr>t_L1 = 10, t_Ltsv = 10, t_mse = 4/10, t_image = ''L1_1_Ltsv_1.pickle''\<rparr>]"
  by (simp add: example_simps log10_vals_pos py_int_vals_pos)



lemma example2_run_best:
  "fst (cvforgridvis example_ext [Num 10, Num 100] [Num 10] 2 ''image'' ''best'' False None
          (Some ''out.dat'') 50000 (1/100000) None example_imager)
     = Inr [''L1'' \<mapsto> DFloat 100, ''Ltsv'' \<mapsto> DFloat 10]"
  "files (snd (cvforgridvis example_ext [Num 10, Num 100] [Num 10] 2 ''image'' ''best'' False
          None (Some ''out.dat'') 50000 (1/100000) None example_imager))
     = [''cvresult.dat'' \<mapsto> Text [''# L1, Ltsv, MSE'', ''100000, 10000, 400'',
                                       ''10000, 10000, 400''],
        ''image.pickle'' \<mapsto> Pickled (ResultingImageStorage (100, 10))]"
  by (simp_all add: example_simps log10_vals_pos py_int_vals_pos)

lemma example2_run_full:
  "fst (cvforgridvis example_ext [Num 10, Num 100] [Num 10] 2 ''image'' ''full'' False None
          None 50000 (1/100000) None example_imager)
     = Inr [''L1'' \<mapsto> DFloat 100, ''Ltsv'' \<mapsto> DFloat 10]"
  "files (snd (cvforgridvis example_ext [Num 10, Num 100] [Num 10] 2 ''image'' ''full'' False
          None None 50000 (1/100000) None example_imager))
     = [''L1_2_Ltsv_1.pickle'' \<mapsto> Pickled (ResultingImageStorage (100, 10)),
        ''L1_1_Ltsv_1.pickle'' \<mapsto> Pickled (ResultingImageStorage (10, 10)),
        ''image.pickle'' \<mapsto> Pickled (ResultingImageStorage (100, 10))]"
  by (simp_all add: example_simps log10_vals_pos py_int_vals_pos)


section \<open>The image policy\<close>




section \<open>The data file\<close>

lemma data_file_after_sweep:
  assumes "sweep_files x (Some ''cvresult.dat'')
             (print_to (Some ''cvresult.dat'') ''# L1, Ltsv, MSE''
                (open_w (Some ''cvresult.dat'') s)) trials s1"
  shows "files s1 ''cvresult.dat''
           = Some (Text (''# L1, Ltsv, MSE'' # map (trial_line x) trials))"
proof -
  let ?s0 = "print_to (Some ''cvresult.dat'') ''# L1, Ltsv, MSE''
               (open_w (Some ''cvresult.dat'') s)"
  have a: "files ?s0 ''cvresult.dat'' = Some (Text [''# L1, Ltsv, MSE''])"
    by (simp add: print_to_def open_w_def)
  have "\<forall>p ls. Some ''cvresult.dat'' = Some p \<and> files ?s0 p = Some (Text ls)
          \<longrightarrow> files s1 p = Some (Text (ls @ map (trial_line x) trials))"
    using assms unfolding sweep_files_def by (elim conjE)
  then have "files s1 ''cvresult.dat''
               = Some (Text ([''# L1, Ltsv, MSE''] @ map (trial_line x) trials))"
    using a by (elim allE [of _ "''cvresult.dat''"] allE [of _ "[''# L1, Ltsv, MSE'']"]) simp
  then show ?thesis by simp
qed

lemma no_data_file_after_sweep:
  assumes "sweep_files x None s trials s1"
  shows "(\<forall>t \<in> set trials. \<exists>v. files s1 (t_image t) = Some (Pickled (ResultingImageStorage v)))
         \<and> (\<forall>q. q \<notin> t_image ` set trials \<longrightarrow> files s1 q = files s q)"
  using assms unfolding sweep_files_def by simp

lemma no_text_file_written:
  assumes sf: "sweep_files x None s trials s1"
    and k: "k < length trials"
    and c: "files s1 (t_image (trials ! k)) = Some c"
    and f2: "files s2 = (files s1)(canonical \<mapsto> c)"
    and p2: "files s2 p = Some (Text ls)"
  shows "files s p = Some (Text ls)"
proof -
  note sw = no_data_file_after_sweep [OF sf]
  have pick: "\<exists>v. files s1 (t_image t) = Some (Pickled (ResultingImageStorage v))"
    if "t \<in> set trials" for t
    using sw that by (elim conjE bspec)
  have same: "files s1 q = files s q" if "q \<notin> t_image ` set trials" for q
  proof -
    from sw have "\<forall>q. q \<notin> t_image ` set trials \<longrightarrow> files s1 q = files s q"
      by (rule conjunct2)
    then have "q \<notin> t_image ` set trials \<longrightarrow> files s1 q = files s q" by (rule spec)
    then show ?thesis using that by (rule mp)
  qed
  have "trials ! k \<in> set trials" using k by (rule nth_mem)
  then have "\<exists>v. files s1 (t_image (trials ! k)) = Some (Pickled (ResultingImageStorage v))"
    by (rule pick)
  then obtain v where "files s1 (t_image (trials ! k)) = Some (Pickled (ResultingImageStorage v))"
    by (rule exE)
  with c have cv: "c = Pickled (ResultingImageStorage v)" by simp
  have pc: "p \<noteq> canonical"
  proof
    assume "p = canonical"
    then have "files s2 p = Some c" by (simp only: f2 fun_upd_same)
    with p2 cv show False by simp
  qed
  from p2 have "((files s1)(canonical \<mapsto> c)) p = Some (Text ls)" by (simp only: f2)
  with pc have p1: "files s1 p = Some (Text ls)" by simp
  have pn: "p \<notin> t_image ` set trials"
  proof
    assume "p \<in> t_image ` set trials"
    then obtain t where t: "t \<in> set trials" "p = t_image t" by (rule imageE)
    from pick [OF t(1)] obtain w where
      "files s1 (t_image t) = Some (Pickled (ResultingImageStorage w))" by (rule exE)
    with p1 t(2) show False by simp
  qed
  from same [OF pn] p1 show ?thesis by simp
qed

text \<open>
  Claim C8, as the code has it. A completed search with a \<^verbatim>\<open>datafile\<close> argument leaves a
  text file whose first line is the header \<^verbatim>\<open># L1, Ltsv, MSE\<close> and whose following lines
  are, one per trial and in the order of the sweep, the three values of the trial
  separated by a comma and a blank. Without a \<^verbatim>\<open>datafile\<close> argument no text file is
  written: every text file present afterwards was there before, with the same lines.
  (Nothing is said here about the name of the file; the code always uses
  \<^verbatim>\<open>cvresult.dat\<close>.)
\<close>

theorem data_file_contents:
  assumes "cvforgridvis x l1_list ltsv_list num_fold imageprefix imagepolicy summarize figfile
             datafile maxiter eps clean_box s = (Inr r, s')"
  shows "\<exists>trials s1.
           cv_sweep x l1_list ltsv_list num_fold imagepolicy summarize datafile maxiter eps
             clean_box s = (Inr trials, s1)
           \<and> (datafile \<noteq> None \<longrightarrow>
                (\<exists>p. files s' p =
                   Some (Text (''# L1, Ltsv, MSE''
                      # map (\<lambda>t. repr_float x (t_L1 t) @ '', '' @ repr_float x (t_Ltsv t)
                                   @ '', '' @ repr_float x (t_mse t)) trials))))
           \<and> (datafile = None \<longrightarrow>
                (\<forall>p ls. files s' p = Some (Text ls) \<longrightarrow> files s p = Some (Text ls)))"
proof -
  let ?canonical = "imageprefix @ ''.'' @ imagesuffix"
  let ?f = "if datafile \<noteq> None then Some ''cvresult.dat'' else None"
  let ?s0 = "print_to ?f ''# L1, Ltsv, MSE'' (open_w ?f s)"
  let ?lines = "map (\<lambda>t. repr_float x (t_L1 t) @ '', '' @ repr_float x (t_Ltsv t)
                                   @ '', '' @ repr_float x (t_mse t))"
  from cvforgridvis_files [OF assms] obtain trials s1 k s2 c where
    sw: "cv_sweep x l1_list ltsv_list num_fold imagepolicy summarize datafile maxiter eps
           clean_box s = (Inr trials, s1)" and
    k: "k < length trials" and
    ok: "\<forall>t \<in> set trials. trial_ok x t" and
    sf: "sweep_files x ?f ?s0 trials s1" and
    c: "files s1 (t_image (trials ! k)) = Some c" and
    f2: "files s2 = (files s1)(?canonical \<mapsto> c)" and
    full: "imagepolicy = ''full'' \<longrightarrow> s' = s2" and
    best: "imagepolicy = ''best'' \<longrightarrow>
                 remove_images (map t_image trials) s2 = (Inr (), s')
                 \<and> distinct (map t_image trials)
                 \<and> files s' = files s2 |` (- t_image ` set trials)"
    by blast
  have pol: "imagepolicy = ''best'' \<or> imagepolicy = ''full''"
    using cv_sweep_Inr [OF sw] by (elim conjE)
  have lines: "map (trial_line x) trials = ?lines trials"
    by (simp add: trial_line_def data_line_def)
  have keep: "files s' q = files s2 q" if q: "q \<notin> t_image ` set trials" for q
  proof (cases "imagepolicy = ''full''")
    case True
    then have "s' = s2" using full by (elim impE)
    then show ?thesis by (rule arg_cong)
  next
    case False
    then have "imagepolicy = ''best''" using pol by (elim disjE) simp_all
    then have "files s' = files s2 |` (- t_image ` set trials)" using best by (elim impE conjE)
    then show ?thesis using q by (simp add: restrict_map_def)
  qed
  have sub: "files s2 p = Some (Text ls)" if p: "files s' p = Some (Text ls)" for p ls
  proof (cases "p \<in> t_image ` set trials")
    case False
    from keep [OF this] p show ?thesis by simp
  next
    case True
    have "imagepolicy \<noteq> ''full'' \<Longrightarrow> files s' p = None"
    proof -
      assume "imagepolicy \<noteq> ''full''"
      then have "imagepolicy = ''best''" using pol by (elim disjE) simp_all
      then have "files s' = files s2 |` (- t_image ` set trials)"
        using best by (elim impE conjE)
      then show ?thesis using True by (simp add: restrict_map_def)
    qed
    then have "imagepolicy = ''full''" using p by (cases "imagepolicy = ''full''") simp_all
    then have "s' = s2" using full by (elim impE)
    then show ?thesis using p by simp
  qed
  have some: "files s' ''cvresult.dat'' = Some (Text (''# L1, Ltsv, MSE'' # ?lines trials))"
    if d: "datafile \<noteq> None"
  proof -
    have "sweep_files x (Some ''cvresult.dat'')
             (print_to (Some ''cvresult.dat'') ''# L1, Ltsv, MSE''
                (open_w (Some ''cvresult.dat'') s)) trials s1"
      using sf d by (simp only: if_True not_False_eq_True simp_thms)
    from data_file_after_sweep [OF this]
    have a: "files s1 ''cvresult.dat''
               = Some (Text (''# L1, Ltsv, MSE'' # ?lines trials))"
      by (simp only: lines)
    have "''cvresult.dat'' \<noteq> ?canonical"
      using canonical_not_data [of imageprefix] by (rule not_sym)
    then have b: "files s2 ''cvresult.dat'' = files s1 ''cvresult.dat''"
      by (simp only: f2 fun_upd_apply if_False)
    have "''cvresult.dat'' \<notin> t_image ` set trials"
    proof
      assume "''cvresult.dat'' \<in> t_image ` set trials"
      then obtain t where t: "t \<in> set trials" "t_image t = ''cvresult.dat''" by auto
      from ok t(1) have "trial_ok x t" by (rule bspec)
      from trial_image_not_data [OF this] t(2) show False by (rule notE)
    qed
    from keep [OF this] a b show ?thesis by (simp only:)
  qed
  have none: "files s p = Some (Text ls)"
    if d: "datafile = None" and p: "files s' p = Some (Text ls)" for p ls
  proof -
    have f: "?f = None" using d by simp
    have "open_w None s = s" by (simp add: open_w_def)
    moreover have "print_to None ''# L1, Ltsv, MSE'' s = s" by (simp add: print_to_def)
    ultimately have s0: "print_to None ''# L1, Ltsv, MSE'' (open_w None s) = s" by simp
    have "sweep_files x None (print_to None ''# L1, Ltsv, MSE'' (open_w None s)) trials s1"
      using sf by (simp only: f)
    then have sf': "sweep_files x None s trials s1" by (simp only: s0)
    have p2: "files s2 p = Some (Text ls)" using p by (rule sub)
    from sf' k c f2 p2 show ?thesis by (rule no_text_file_written)
  qed
  have A: "datafile \<noteq> None \<longrightarrow>
             (\<exists>p. files s' p = Some (Text (''# L1, Ltsv, MSE'' # ?lines trials)))"
  proof
    assume d: "datafile \<noteq> None"
    show "\<exists>p. files s' p = Some (Text (''# L1, Ltsv, MSE'' # ?lines trials))"
      by (rule exI [of _ "''cvresult.dat''"]) (rule some [OF d])
  qed
  have B: "datafile = None \<longrightarrow>
             (\<forall>p ls. files s' p = Some (Text ls) \<longrightarrow> files s p = Some (Text ls))"
  proof (intro impI allI)
    fix p ls
    assume "datafile = None" "files s' p = Some (Text ls)"
    then show "files s p = Some (Text ls)" by (rule none)
  qed
  show ?thesis
  proof (rule exI [of _ trials], rule exI [of _ s1], intro conjI)
    show "cv_sweep x l1_list ltsv_list num_fold imagepolicy summarize datafile maxiter eps
            clean_box s = (Inr trials, s1)" by (rule sw)
    show "datafile \<noteq> None \<longrightarrow>
             (\<exists>p. files s' p = Some (Text (''# L1, Ltsv, MSE'' # ?lines trials)))" by (rule A)
    show "datafile = None \<longrightarrow>
             (\<forall>p ls. files s' p = Some (Text ls) \<longrightarrow> files s p = Some (Text ls))"
      by (rule B)
  qed
qed

text \<open>The second example with \<^verbatim>\<open>datafile='out.dat'\<close>, then without a data file.\<close>

theorem data_file_contents_witness:
  "fst (cvforgridvis example_ext [Num 10, Num 100] [Num 10] 2 ''image'' ''best'' False None
          (Some ''out.dat'') 50000 (1/100000) None example_imager)
     = Inr [''L1'' \<mapsto> DFloat 100, ''Ltsv'' \<mapsto> DFloat 10]
   \<and> (\<exists>p. files (snd (cvforgridvis example_ext [Num 10, Num 100] [Num 10] 2 ''image'' ''best''
               False None (Some ''out.dat'') 50000 (1/100000) None example_imager)) p
           = Some (Text [''# L1, Ltsv, MSE'', ''100000, 10000, 400'', ''10000, 10000, 400'']))
   \<and> fst (cvforgridvis example_ext [Num 10, Num 100] [Num 10] 2 ''image'' ''full'' False None
          None 50000 (1/100000) None example_imager)
       = Inr [''L1'' \<mapsto> DFloat 100, ''Ltsv'' \<mapsto> DFloat 10]
   \<and> \<not> (\<exists>p ls. files (snd (cvforgridvis example_ext [Num 10, Num 100] [Num 10] 2 ''image''
               ''full'' False None None 50000 (1/100000) None example_imager)) p
             = Some (Text ls))"
proof -
  let ?best = "cvforgridvis example_ext [Num 10, Num 100] [Num 10] 2 ''image'' ''best'' False
                 None (Some ''out.dat'') 50000 (1/100000) None example_imager"
  let ?full = "cvforgridvis example_ext [Num 10, Num 100] [Num 10] 2 ''image'' ''full'' False
                 None None 50000 (1/100000) None example_imager"
  let ?r = "[''L1'' \<mapsto> DFloat 100, ''Ltsv'' \<mapsto> DFloat 10]"
  have fb: "fst ?best = Inr ?r" by (rule example2_run_best(1))
  then have rb: "?best = (Inr ?r, snd ?best)" by (metis prod.collapse)
  have ff: "fst ?full = Inr ?r" by (rule example2_run_full(1))
  then have rf: "?full = (Inr ?r, snd ?full)" by (metis prod.collapse)
  have written: "\<exists>p. files (snd ?best) p
           = Some (Text [''# L1, Ltsv, MSE'', ''100000, 10000, 400'', ''10000, 10000, 400''])"
  proof -
    from data_file_contents [OF rb] obtain trials s1 where
      sw: "cv_sweep example_ext [Num 10, Num 100] [Num 10] 2 ''best'' False (Some ''out.dat'')
             50000 (1/100000) None example_imager = (Inr trials, s1)" and
      d: "Some ''out.dat'' \<noteq> None \<longrightarrow>
            (\<exists>p. files (snd ?best) p =
               Some (Text (''# L1, Ltsv, MSE''
                  # map (\<lambda>t. repr_float example_ext (t_L1 t) @ '', ''
                               @ repr_float example_ext (t_Ltsv t) @ '', ''
                               @ repr_float example_ext (t_mse t)) trials)))"
      by blast
    have trials: "trials =
        [\<lparr>t_L1 = 100, t_Ltsv = 10, t_mse = 4/10, t_image = ''L1_2_Ltsv_1.pickle''\<rparr>,
         \<lparr>t_L1 = 10, t_Ltsv = 10, t_mse = 4/10, t_image = ''L1_1_Ltsv_1.pickle''\<rparr>]"
      using example2_sweep_best sw by simp
    have lines: "map (\<lambda>t. repr_float example_ext (t_L1 t) @ '', ''
                               @ repr_float example_ext (t_Ltsv t) @ '', ''
                               @ repr_float example_ext (t_mse t)) trials
                   = [''100000, 10000, 400'', ''10000, 10000, 400'']"
      by (simp add: trials example_ext_def example_repr_def show_int_def show_nat.simps)
    from d have "\<exists>p. files (snd ?best) p =
               Some (Text (''# L1, Ltsv, MSE''
                  # map (\<lambda>t. repr_float example_ext (t_L1 t) @ '', ''
                               @ repr_float example_ext (t_Ltsv t) @ '', ''
                               @ repr_float example_ext (t_mse t)) trials))"
      by simp
    then show ?thesis by (simp only: lines)
  qed
  have no_text: "\<not> (\<exists>p ls. files (snd ?full) p = Some (Text ls))"
  proof -
    from data_file_contents [OF rf] have
      "\<forall>p ls. files (snd ?full) p = Some (Text ls) \<longrightarrow> files example_imager p = Some (Text ls)"
      by blast
    moreover have "files example_imager p \<noteq> Some (Text ls)" for p ls
      by (simp add: example_imager_def)
    ultimately show ?thesis by blast
  qed
  show ?thesis by (rule conjI [OF fb conjI [OF written conjI [OF ff no_text]]])
qed

text \<open>
  Claim C8 as stated fails on the second example run with \<^verbatim>\<open>datafile='out.dat'\<close>: no file
  named \<^verbatim>\<open>out.dat\<close> exists afterwards, and the file that was written, \<^verbatim>\<open>cvresult.dat\<close>,
  has three lines for two trials, the first being the header.
\<close>

theorem data_file_counterexample:
  "fst (cvforgridvis example_ext [Num 10, Num 100] [Num 10] 2 ''image'' ''best'' False None
          (Some ''out.dat'') 50000 (1/100000) None example_imager)
     = Inr [''L1'' \<mapsto> DFloat 100, ''Ltsv'' \<mapsto> DFloat 10]
   \<and> files (snd (cvforgridvis example_ext [Num 10, Num 100] [Num 10] 2 ''image'' ''best''
          False None (Some ''out.dat'') 50000 (1/100000) None example_imager)) ''out.dat'' = None
   \<and> files (snd (cvforgridvis example_ext [Num 10, Num 100] [Num 10] 2 ''image'' ''best''
          False None (Some ''out.dat'') 50000 (1/100000) None example_imager)) ''cvresult.dat''
       = Some (Text [''# L1, Ltsv, MSE'', ''100000, 10000, 400'', ''10000, 10000, 400''])"
  by (simp add: example2_run_best)

end
